theory Spec2Isabelle
  imports Main "HOL-Library.AList" "HOL-Library.Sublist"
begin

section \<open>Python values used by the pipeline\<close>

text \<open>
  The pipeline of \<^verbatim>\<open>main.py\<close> and \<^verbatim>\<open>main_failed.py\<close> passes around Python strings, lists of
  strings and the dictionaries that \<^verbatim>\<open>json.loads\<close> returns. A decoded JSON value is a
  \<open>json\<close>; a Python \<^verbatim>\<open>dict\<close> with string keys is an association list in insertion order
  (\<open>AList.update\<close> is Python's \<^verbatim>\<open>d[k] = v\<close>: it overwrites in place or appends). An exception
  is an \<open>exn\<close> carrying the text of \<^verbatim>\<open>str(e)\<close>; a call that may raise returns \<open>exn + 'a\<close>.
  Numbers are integers here: the code modelled below only ever tests a number for being
  zero or stores a length.
\<close>

datatype json =
    JNull
  | JBool bool
  | JNum int
  | JStr string
  | JArr "json list"
  | JObj "(string \<times> json) list"

type_synonym dict = "(string \<times> json) list"

datatype exn = Exn string

fun str_exn :: "exn \<Rightarrow> string" where
  "str_exn (Exn msg) = msg"

text \<open>Python truthiness (\<^verbatim>\<open>if x:\<close>) and \<^verbatim>\<open>len(x)\<close>, which raises \<^verbatim>\<open>TypeError\<close> (here \<open>None\<close>)
  on \<^verbatim>\<open>None\<close>, booleans and numbers.\<close>

fun truthy :: "json \<Rightarrow> bool" where
  "truthy JNull = False"
| "truthy (JBool b) = b"
| "truthy (JNum n) = (n \<noteq> 0)"
| "truthy (JStr s) = (s \<noteq> [])"
| "truthy (JArr xs) = (xs \<noteq> [])"
| "truthy (JObj kvs) = (kvs \<noteq> [])"

fun py_len :: "json \<Rightarrow> nat option" where
  "py_len (JStr s) = Some (length s)"
| "py_len (JArr xs) = Some (length xs)"
| "py_len (JObj kvs) = Some (length kvs)"
| "py_len JNull = None"
| "py_len (JBool b) = None"
| "py_len (JNum n) = None"

text \<open>\<^verbatim>\<open>d.update({k1: v1, ...})\<close>: the pairs are stored in order.\<close>

definition dict_update :: "dict \<Rightarrow> dict \<Rightarrow> dict" where
  "dict_update d kvs = fold (\<lambda>(k, v). AList.update k v) kvs d"

subsection \<open>Strings\<close>

text \<open>\<^verbatim>\<open>s.startswith(p)\<close>, \<^verbatim>\<open>s.endswith(p)\<close>, \<^verbatim>\<open>sub in s\<close> and \<^verbatim>\<open>s.lower()\<close> (on the ASCII
  letters; the keyword tables of the code are ASCII).\<close>

fun startswith :: "string \<Rightarrow> string \<Rightarrow> bool" where
  "startswith s [] = True"
| "startswith [] (p # ps) = False"
| "startswith (c # cs) (p # ps) = (c = p \<and> startswith cs ps)"

definition endswith :: "string \<Rightarrow> string \<Rightarrow> bool" where
  "endswith s p = startswith (rev s) (rev p)"

fun py_in :: "string \<Rightarrow> string \<Rightarrow> bool" where
  "py_in sub [] = (sub = [])"
| "py_in sub (c # cs) = (startswith (c # cs) sub \<or> py_in sub cs)"

definition lower_char :: "char \<Rightarrow> char" where
  "lower_char c =
     (case map_of (zip ''ABCDEFGHIJKLMNOPQRSTUVWXYZ'' ''abcdefghijklmnopqrstuvwxyz'') c of
        Some d \<Rightarrow> d
      | None \<Rightarrow> c)"

definition py_lower :: "string \<Rightarrow> string" where
  "py_lower s = map lower_char s"

text \<open>\<^verbatim>\<open>any(keyword in s for keyword in keywords)\<close>.\<close>

definition any_in :: "string list \<Rightarrow> string \<Rightarrow> bool" where
  "any_in keywords s = list_ex (\<lambda>keyword. py_in keyword s) keywords"

section \<open>Per-site orchestration: \<^verbatim>\<open>PricingExtractor.get_pricing_data\<close>\<close>

text \<open>
  \<^verbatim>\<open>get_pricing_data\<close> calls three other methods of the extractor. They reach the network and
  the language model, so the orchestrator is modelled over the three methods as it sees
  them: each either returns or raises. Every call to the Content Extractor and to the
  Pricing Analyzer is recorded, in order, next to the returned record.
\<close>

record extractor =
  self_find_pricing_routes :: "string \<Rightarrow> exn + string list"
  self_extract_pricing_content :: "string \<Rightarrow> exn + string"
  self_analyze_pricing_with_ai :: "string \<Rightarrow> string \<Rightarrow> exn + dict"

datatype call = Extract string | Analyze string string

text \<open>The skip filter of the loop: \<^verbatim>\<open>if "Error" in content or len(content) < 100: continue\<close>.\<close>

definition skip_content :: "string \<Rightarrow> bool" where
  "skip_content content \<longleftrightarrow> py_in ''Error'' content \<or> length content < 100"

text \<open>
  The test \<^verbatim>\<open>'plans' in pricing_data and pricing_data['plans']\<close>, followed by the
  \<^verbatim>\<open>len(pricing_data['plans'])\<close> of the success message: when \<^verbatim>\<open>len\<close> raises, the handler of
  the loop body continues with the next URL.
\<close>

definition plans_accepted :: "dict \<Rightarrow> bool" where
  "plans_accepted pricing_data =
     (case map_of pricing_data ''plans'' of
        None \<Rightarrow> False
      | Some plans \<Rightarrow> truthy plans \<and> py_len plans \<noteq> None)"

definition success_record :: "dict \<Rightarrow> string \<Rightarrow> string \<Rightarrow> string \<Rightarrow> string \<Rightarrow> dict" where
  "success_record pricing_data name domain pricing_url content =
     dict_update pricing_data
       [(''name'', JStr name),
        (''domain'', JStr domain),
        (''source_url'', JStr pricing_url),
        (''success'', JBool True),
        (''content_length'', JNum (int (length content)))]"

text \<open>One pass of the loop body for one URL: the record to return, if any, and the calls made.\<close>

definition try_url :: "extractor \<Rightarrow> string \<Rightarrow> string \<Rightarrow> string \<Rightarrow> dict option \<times> call list" where
  "try_url self domain name pricing_url =
     (case self_extract_pricing_content self pricing_url of
        Inl e \<Rightarrow> (None, [Extract pricing_url])
      | Inr content \<Rightarrow>
          if skip_content content then (None, [Extract pricing_url])
          else
            (case self_analyze_pricing_with_ai self content pricing_url of
               Inl e \<Rightarrow> (None, [Extract pricing_url, Analyze content pricing_url])
             | Inr pricing_data \<Rightarrow>
                 if plans_accepted pricing_data
                 then (Some (success_record pricing_data name domain pricing_url content),
                       [Extract pricing_url, Analyze content pricing_url])
                 else (None, [Extract pricing_url, Analyze content pricing_url])))"

text \<open>\<^verbatim>\<open>for i, pricing_url in enumerate(pricing_urls): ...\<close> with its \<^verbatim>\<open>return\<close> on success.\<close>

fun try_urls :: "extractor \<Rightarrow> string \<Rightarrow> string \<Rightarrow> string list \<Rightarrow> dict option \<times> call list" where
  "try_urls self domain name [] = (None, [])"
| "try_urls self domain name (pricing_url # rest) =
     (case try_url self domain name pricing_url of
        (Some pricing_data, calls) \<Rightarrow> (Some pricing_data, calls)
      | (None, calls) \<Rightarrow>
          (case try_urls self domain name rest of
             (r, calls') \<Rightarrow> (r, calls @ calls')))"

definition failure_record :: "string \<Rightarrow> string \<Rightarrow> string \<Rightarrow> dict" where
  "failure_record name domain msg =
     [(''name'', JStr name), (''domain'', JStr domain), (''error'', JStr msg),
      (''success'', JBool False)]"

definition all_failed_record :: "string \<Rightarrow> string \<Rightarrow> string list \<Rightarrow> dict" where
  "all_failed_record name domain pricing_urls =
     [(''name'', JStr name), (''domain'', JStr domain),
      (''error'', JStr ''All URLs failed to yield valid pricing data''),
      (''attempted_urls'', JArr (map JStr pricing_urls)),
      (''success'', JBool False)]"

text \<open>The tail of both variants, from the ranked list on.\<close>

definition try_ranked :: "extractor \<Rightarrow> string \<Rightarrow> string \<Rightarrow> string list \<Rightarrow> dict \<times> call list" where
  "try_ranked self domain name pricing_urls =
     (case try_urls self domain name pricing_urls of
        (Some pricing_data, calls) \<Rightarrow> (pricing_data, calls)
      | (None, calls) \<Rightarrow> (all_failed_record name domain pricing_urls, calls))"

text \<open>\<^verbatim>\<open>main.py\<close>: at most \<^verbatim>\<open>max_urls_to_try = 5\<close> URLs are tried.\<close>

definition get_pricing_data :: "extractor \<Rightarrow> string \<Rightarrow> string \<Rightarrow> dict \<times> call list" where
  "get_pricing_data self domain name =
     (case self_find_pricing_routes self domain of
        Inl e \<Rightarrow>
          (failure_record name domain (''Error finding pricing routes: '' @ str_exn e), [])
      | Inr pricing_urls \<Rightarrow>
          if pricing_urls = [] then (failure_record name domain ''No pricing pages found'', [])
          else
            let max_urls_to_try = 5;
                pricing_urls =
                  (if length pricing_urls > max_urls_to_try
                   then take max_urls_to_try pricing_urls else pricing_urls)
            in try_ranked self domain name pricing_urls)"

text \<open>\<^verbatim>\<open>main_failed.py\<close> (the browser variant): the same method without the limit.\<close>

definition get_pricing_data_main_failed ::
  "extractor \<Rightarrow> string \<Rightarrow> string \<Rightarrow> dict \<times> call list" where
  "get_pricing_data_main_failed self domain name =
     (case self_find_pricing_routes self domain of
        Inl e \<Rightarrow>
          (failure_record name domain (''Error finding pricing routes: '' @ str_exn e), [])
      | Inr pricing_urls \<Rightarrow>
          if pricing_urls = [] then (failure_record name domain ''No pricing pages found'', [])
          else try_ranked self domain name pricing_urls)"

text \<open>What the recorded calls say: the URLs handed to the Content Extractor and the
  (content, URL) pairs handed to the Pricing Analyzer, in call order.\<close>

fun extracted :: "call list \<Rightarrow> string list" where
  "extracted [] = []"
| "extracted (Extract u # cs) = u # extracted cs"
| "extracted (Analyze c u # cs) = extracted cs"

fun analyzed :: "call list \<Rightarrow> (string \<times> string) list" where
  "analyzed [] = []"
| "analyzed (Extract u # cs) = analyzed cs"
| "analyzed (Analyze c u # cs) = (c, u) # analyzed cs"

text \<open>When the loop body returns for a URL: the content passes the skip filter and the
  analysis passes the test on \<^verbatim>\<open>plans\<close>.\<close>

definition accepted :: "extractor \<Rightarrow> string \<Rightarrow> bool" where
  "accepted self pricing_url =
     (case self_extract_pricing_content self pricing_url of
        Inl e \<Rightarrow> False
      | Inr content \<Rightarrow>
          \<not> skip_content content \<and>
          (case self_analyze_pricing_with_ai self content pricing_url of
             Inl e \<Rightarrow> False
           | Inr pricing_data \<Rightarrow> plans_accepted pricing_data))"

text \<open>What the loop body hands to the Pricing Analyzer for a URL.\<close>

definition analysis_input :: "extractor \<Rightarrow> string \<Rightarrow> (string \<times> string) list" where
  "analysis_input self u =
     (case self_extract_pricing_content self u of
        Inl e \<Rightarrow> []
      | Inr content \<Rightarrow> if skip_content content then [] else [(content, u)])"

text \<open>The URLs the loop reaches: all of them, or those up to the first accepted one.\<close>

definition tried_urls :: "extractor \<Rightarrow> string list \<Rightarrow> string list" where
  "tried_urls self urls =
     (case find (accepted self) urls of
        None \<Rightarrow> urls
      | Some u \<Rightarrow> takeWhile (\<lambda>v. \<not> accepted self v) urls @ [u])"

text \<open>
  A value that passes the test on \<^verbatim>\<open>plans\<close>: it is true as a Python condition and has a
  length, so it is a non-empty list, a non-empty string or a non-empty object.
\<close>

definition nonempty_sized :: "json \<Rightarrow> bool" where
  "nonempty_sized v =
     (case v of
        JArr xs \<Rightarrow> xs \<noteq> []
      | JStr s \<Rightarrow> s \<noteq> []
      | JObj kvs \<Rightarrow> kvs \<noteq> []
      | _ \<Rightarrow> False)"

text \<open>
  First accepted wins over the candidate list \<open>us\<close>, for an outcome \<open>out\<close> (record and
  calls): the Content Extractor is called on a prefix of \<open>us\<close> in order, the Pricing
  Analyzer only on URLs that were extracted and in the same order; if some candidate is
  accepted, the record is a success whose \<^verbatim>\<open>source_url\<close> is the first such candidate and the
  extractor calls end with it; otherwise the record is a failure and every candidate was
  extracted.
\<close>

definition first_accepted_wins :: "extractor \<Rightarrow> string list \<Rightarrow> dict \<times> call list \<Rightarrow> bool" where
  "first_accepted_wins self us out \<longleftrightarrow>
     prefix (extracted (snd out)) us \<and>
     subseq (map snd (analyzed (snd out))) (extracted (snd out)) \<and>
     (case find (accepted self) us of
        Some u \<Rightarrow>
          map_of (fst out) ''success'' = Some (JBool True) \<and>
          map_of (fst out) ''source_url'' = Some (JStr u) \<and>
          extracted (snd out) = takeWhile (\<lambda>v. \<not> accepted self v) us @ [u]
      | None \<Rightarrow>
          map_of (fst out) ''success'' = Some (JBool False) \<and>
          extracted (snd out) = us)"

subsection \<open>First match wins, in the words of the specification\<close>

text \<open>
  The specification speaks of a candidate ``whose extracted content passes the skip filter
  and whose analysis yields a non-empty plans list''. \<open>yields_plans\<close> says exactly that.
  The schema of the specification makes \<^verbatim>\<open>plans\<close> a list; it is a contract with the language
  model that the code does not check, and \<open>plans_is_list\<close> states it for one candidate:
  the analysis of its content, if there is one, has no \<^verbatim>\<open>plans\<close> entry or a list there.
\<close>

definition nonempty_plans_list :: "dict \<Rightarrow> bool" where
  "nonempty_plans_list pricing_data =
     (case map_of pricing_data ''plans'' of
        Some (JArr (p # ps)) \<Rightarrow> True
      | _ \<Rightarrow> False)"

definition yields_plans :: "extractor \<Rightarrow> string \<Rightarrow> bool" where
  "yields_plans self url =
     (case self_extract_pricing_content self url of
        Inl e \<Rightarrow> False
      | Inr content \<Rightarrow>
          \<not> skip_content content \<and>
          (case self_analyze_pricing_with_ai self content url of
             Inl e \<Rightarrow> False
           | Inr pricing_data \<Rightarrow> nonempty_plans_list pricing_data))"

definition plans_is_list :: "extractor \<Rightarrow> string \<Rightarrow> bool" where
  "plans_is_list self url =
     (case self_extract_pricing_content self url of
        Inl e \<Rightarrow> True
      | Inr content \<Rightarrow>
          (case self_analyze_pricing_with_ai self content url of
             Inl e \<Rightarrow> True
           | Inr pricing_data \<Rightarrow>
               (case map_of pricing_data ''plans'' of
                  None \<Rightarrow> True
                | Some (JArr ps) \<Rightarrow> True
                | Some _ \<Rightarrow> False)))"

text \<open>
  First match wins over the candidate list \<open>us\<close>, for an outcome \<open>out\<close> (record and calls):
  the Content Extractor is called on a prefix of \<open>us\<close> in order, the Pricing Analyzer only
  on URLs that were extracted and in the same order; if some candidate yields plans, the
  record is a success whose \<^verbatim>\<open>source_url\<close> is the first such candidate and the extractor
  calls end with it; otherwise the record is a failure and every candidate was extracted.
\<close>

definition first_match_wins :: "extractor \<Rightarrow> string list \<Rightarrow> dict \<times> call list \<Rightarrow> bool" where
  "first_match_wins self us out \<longleftrightarrow>
     prefix (extracted (snd out)) us \<and>
     subseq (map snd (analyzed (snd out))) (extracted (snd out)) \<and>
     (case find (yields_plans self) us of
        Some u \<Rightarrow>
          map_of (fst out) ''success'' = Some (JBool True) \<and>
          map_of (fst out) ''source_url'' = Some (JStr u) \<and>
          extracted (snd out) = takeWhile (\<lambda>v. \<not> yields_plans self v) us @ [u]
      | None \<Rightarrow>
          map_of (fst out) ''success'' = Some (JBool False) \<and>
          extracted (snd out) = us)"

subsection \<open>A site with three ranked URLs\<close>

text \<open>
  The first page is long enough but its text contains the word \<^verbatim>\<open>Error\<close>; the second and
  third pages have 500 characters each and the analysis finds one plan.
\<close>

definition example_extractor :: extractor where
  "example_extractor =
     \<lparr> self_find_pricing_routes =
         (\<lambda>domain. Inr [''https://acme.test/about'', ''https://acme.test/pricing'',
                        ''https://acme.test/plans'']),
       self_extract_pricing_content =
         (\<lambda>url. if url = ''https://acme.test/about''
                 then Inr (replicate 100 CHR ''x'' @ ''Error'')
                 else Inr (replicate 500 CHR ''x'')),
       self_analyze_pricing_with_ai =
         (\<lambda>content url.
            Inr [(''currency'', JStr ''usd''),
                 (''plans'', JArr [JObj [(''name'', JStr ''Pro'')]])]) \<rparr>"

text \<open>A site where the analysis of the first page returns a string under \<^verbatim>\<open>plans\<close>.\<close>

definition string_plans_extractor :: extractor where
  "string_plans_extractor =
     \<lparr> self_find_pricing_routes =
         (\<lambda>domain. Inr [''https://acme.test/about'', ''https://acme.test/pricing'']),
       self_extract_pricing_content = (\<lambda>url. Inr (replicate 500 CHR ''x'')),
       self_analyze_pricing_with_ai =
         (\<lambda>content url.
            if url = ''https://acme.test/about'' then Inr [(''plans'', JStr ''n/a'')]
            else Inr [(''plans'', JArr [JObj [(''name'', JStr ''Pro'')]])]) \<rparr>"

section \<open>The batch loop of \<^verbatim>\<open>main.py\<close>: checkpoint and resume\<close>

text \<open>
  A row of the CSV file is an item: \<^verbatim>\<open>{"name": ..., "website": ...}\<close>. The website is
  missing (\<^verbatim>\<open>None\<close>) when the row is short. The results mapping is a dictionary from item
  name to result record. A checkpoint holds the results, \<^verbatim>\<open>processed_count\<close> and
  \<^verbatim>\<open>total_count\<close> (its \<^verbatim>\<open>timestamp\<close>, the wall-clock time, is left out).
\<close>

record item =
  item_name :: string
  item_website :: "string option"

type_synonym results = "(string \<times> dict) list"

record checkpoint =
  cp_results :: results
  cp_processed_count :: nat
  cp_total_count :: nat

text \<open>\<^verbatim>\<open>get_remaining_urls(all_urls, existing_results)\<close>.\<close>

definition get_remaining_urls :: "item list \<Rightarrow> results \<Rightarrow> item list" where
  "get_remaining_urls all_urls existing_results =
     (let processed_names = set (map fst existing_results)
      in filter (\<lambda>url. item_name url \<notin> processed_names) all_urls)"

text \<open>
  \<^verbatim>\<open>s.strip()\<close> removes leading and trailing whitespace. A character of the model is a
  code point below 256; the whitespace characters of Python among them are the ASCII ones
  (tab to carriage return, the four separators \<^verbatim>\<open>0x1C\<close> to \<^verbatim>\<open>0x1F\<close>, the space), next line
  \<^verbatim>\<open>0x85\<close> and the no-break space \<^verbatim>\<open>0xA0\<close>.
\<close>

definition is_space :: "char \<Rightarrow> bool" where
  "is_space c \<longleftrightarrow>
     c \<in> set [CHR 0x09, CHR 0x0A, CHR 0x0B, CHR 0x0C, CHR 0x0D,
              CHR 0x1C, CHR 0x1D, CHR 0x1E, CHR 0x1F, CHR 0x20, CHR 0x85, CHR 0xA0]"

definition py_strip :: "string \<Rightarrow> string" where
  "py_strip s = rev (dropWhile is_space (rev (dropWhile is_space s)))"

text \<open>\<^verbatim>\<open>not website or website.strip() == ""\<close>.\<close>

definition website_empty :: "string option \<Rightarrow> bool" where
  "website_empty website =
     (case website of
        None \<Rightarrow> True
      | Some w \<Rightarrow> w = [] \<or> py_strip w = [])"

text \<open>
  What the loop does that can be observed from outside: the progress line
  \<^verbatim>\<open>PROCESSING k/total: name\<close>, the call \<^verbatim>\<open>extractor.get_pricing_data(website, name)\<close> (the
  only place where the loop reaches the network), and what \<^verbatim>\<open>save_checkpoint\<close> did: the
  checkpoint file was written, or the write raised and the exception was swallowed.
\<close>

datatype batch_event =
    Processing nat nat string
  | GetPricingData string string
  | Saved checkpoint
  | SaveFailed checkpoint exn

text \<open>
  \<^verbatim>\<open>save_checkpoint(output_file, results, processed_count, total_count)\<close>. It builds the
  checkpoint data and writes them to the checkpoint file inside \<^verbatim>\<open>try\<close>; \<open>write_file\<close> is
  that write: \<open>None\<close> when the file was written, \<open>Some e\<close> when opening or dumping raised
  \<open>e\<close>. The handler prints the error and the function returns normally either way.
\<close>

definition save_checkpoint ::
  "(checkpoint \<Rightarrow> exn option) \<Rightarrow> results \<Rightarrow> nat \<Rightarrow> nat \<Rightarrow> batch_event" where
  "save_checkpoint write_file results processed_count total_count =
     (let checkpoint_data =
            \<lparr> cp_results = results, cp_processed_count = processed_count,
              cp_total_count = total_count \<rparr>
      in case write_file checkpoint_data of
           None \<Rightarrow> Saved checkpoint_data
         | Some e \<Rightarrow> SaveFailed checkpoint_data e)"

text \<open>\<^verbatim>\<open>if not website.startswith(('http://', 'https://')): website = 'https://' + website\<close>.\<close>

definition with_scheme :: "string \<Rightarrow> string" where
  "with_scheme website =
     (if startswith website ''http://'' \<or> startswith website ''https://''
      then website else ''https://'' @ website)"

text \<open>
  One pass of the loop body, for the item at index \<open>i\<close> of \<^verbatim>\<open>enumerate(remaining_urls)\<close>.
  \<open>write_file\<close> is the write of the checkpoint file.
  \<open>get_data\<close> is the call \<^verbatim>\<open>extractor.get_pricing_data(website, name)\<close> as the loop sees it:
  it returns a record, or an exception escapes and the handler of the loop stores a record
  of its own.
\<close>

definition process_item ::
  "(checkpoint \<Rightarrow> exn option) \<Rightarrow> (string \<Rightarrow> string \<Rightarrow> exn + dict) \<Rightarrow> nat \<Rightarrow> nat \<Rightarrow> results \<Rightarrow> nat \<Rightarrow> item
     \<Rightarrow> results \<times> batch_event list" where
  "process_item write_file get_data processed_count total_count results i item =
     (let name = item_name item;
          website = item_website item;
          progress = Processing (processed_count + i + 1) total_count name
      in if website_empty website then
           let results = AList.update name
                 [(''error'', JStr ''Empty URL''), (''success'', JBool False)] results
           in (results,
               [progress, save_checkpoint write_file results (processed_count + i + 1) total_count])
         else
           let website = with_scheme (the website)
           in (case get_data website name of
                 Inr pricing_data \<Rightarrow>
                   let results = AList.update name pricing_data results
                   in (results,
                       [progress, GetPricingData website name,
                        save_checkpoint write_file results (processed_count + i + 1) total_count])
               | Inl e \<Rightarrow>
                   let results = AList.update name
                         [(''name'', JStr name), (''website'', JStr website),
                          (''error'', JStr (''Unexpected error: '' @ str_exn e)),
                          (''success'', JBool False)] results
                   in (results,
                       [progress, GetPricingData website name,
                        save_checkpoint write_file results (processed_count + i + 1) total_count])))"

text \<open>\<^verbatim>\<open>for i, item in enumerate(remaining_urls): ...\<close>, from index \<open>i\<close> on.\<close>

fun process_items ::
  "(checkpoint \<Rightarrow> exn option) \<Rightarrow> (string \<Rightarrow> string \<Rightarrow> exn + dict) \<Rightarrow> nat \<Rightarrow> nat \<Rightarrow> results \<Rightarrow> nat \<Rightarrow> item list
     \<Rightarrow> results \<times> batch_event list" where
  "process_items write_file get_data processed_count total_count results i [] = (results, [])"
| "process_items write_file get_data processed_count total_count results i (item # rest) =
     (case process_item write_file get_data processed_count total_count results i item of
        (results', events) \<Rightarrow>
          (case process_items write_file get_data processed_count total_count results' (i + 1) rest of
             (results'', events') \<Rightarrow> (results'', events @ events')))"


text \<open>
  The call \<^verbatim>\<open>extractor.get_pricing_data(website, name)\<close> of the loop, for an extractor
  \<open>self\<close>: the record of \<open>get_pricing_data\<close>, unless an exception escapes the call
  (\<open>escapes website name = Some e\<close>).
\<close>

definition run_site ::
  "extractor \<Rightarrow> (string \<Rightarrow> string \<Rightarrow> exn option) \<Rightarrow> string \<Rightarrow> string \<Rightarrow> exn + dict" where
  "run_site self escapes website name =
     (case escapes website name of
        Some e \<Rightarrow> Inl e
      | None \<Rightarrow> Inr (fst (get_pricing_data self website name)))"

text \<open>Reading the events: the names on the progress lines, the names
  \<^verbatim>\<open>get_pricing_data\<close> was called for, the checkpoints written to the file, and the
  checkpoint data of every call of \<^verbatim>\<open>save_checkpoint\<close>, written or not.\<close>

fun progress_names :: "batch_event list \<Rightarrow> string list" where
  "progress_names [] = []"
| "progress_names (Processing k t name # es) = name # progress_names es"
| "progress_names (GetPricingData website name # es) = progress_names es"
| "progress_names (Saved c # es) = progress_names es"
| "progress_names (SaveFailed c e # es) = progress_names es"

fun invoked_names :: "batch_event list \<Rightarrow> string list" where
  "invoked_names [] = []"
| "invoked_names (Processing k t name # es) = invoked_names es"
| "invoked_names (GetPricingData website name # es) = name # invoked_names es"
| "invoked_names (Saved c # es) = invoked_names es"
| "invoked_names (SaveFailed c e # es) = invoked_names es"

fun checkpoints :: "batch_event list \<Rightarrow> checkpoint list" where
  "checkpoints [] = []"
| "checkpoints (Processing k t name # es) = checkpoints es"
| "checkpoints (GetPricingData website name # es) = checkpoints es"
| "checkpoints (Saved c # es) = c # checkpoints es"
| "checkpoints (SaveFailed c e # es) = checkpoints es"

fun save_calls :: "batch_event list \<Rightarrow> checkpoint list" where
  "save_calls [] = []"
| "save_calls (Processing k t name # es) = save_calls es"
| "save_calls (GetPricingData website name # es) = save_calls es"
| "save_calls (Saved c # es) = c # save_calls es"
| "save_calls (SaveFailed c e # es) = c # save_calls es"

subsection \<open>The fields of a stored record\<close>

text \<open>
  \<open>stored_ok\<close>: the record has a boolean \<^verbatim>\<open>success\<close>, and an \<^verbatim>\<open>error\<close> when \<^verbatim>\<open>success\<close> is
  false. \<open>site_record_ok\<close>, for a record of \<^verbatim>\<open>get_pricing_data(domain, name)\<close>: it also has
  that \<^verbatim>\<open>name\<close> and that \<^verbatim>\<open>domain\<close>, and when \<^verbatim>\<open>success\<close> is true it has \<^verbatim>\<open>source_url\<close>,
  \<^verbatim>\<open>content_length\<close> and a non-empty \<^verbatim>\<open>plans\<close>.
\<close>

definition stored_ok :: "dict \<Rightarrow> bool" where
  "stored_ok r \<longleftrightarrow>
     (map_of r ''success'' = Some (JBool True) \<or> map_of r ''success'' = Some (JBool False)) \<and>
     (map_of r ''success'' = Some (JBool False) \<longrightarrow> map_of r ''error'' \<noteq> None)"

definition site_record_ok :: "string \<Rightarrow> string \<Rightarrow> dict \<Rightarrow> bool" where
  "site_record_ok name domain r \<longleftrightarrow>
     map_of r ''name'' = Some (JStr name) \<and>
     map_of r ''domain'' = Some (JStr domain) \<and>
     stored_ok r \<and>
     (map_of r ''success'' = Some (JBool True) \<longrightarrow>
        map_of r ''source_url'' \<noteq> None \<and>
        map_of r ''content_length'' \<noteq> None \<and>
        (\<exists>plans. map_of r ''plans'' = Some plans \<and> truthy plans))"

subsection \<open>A batch of three rows, resumed\<close>

text \<open>
  Three rows; the checkpoint holds a result for the first. The second row has a website,
  the third a blank one. No exception escapes \<^verbatim>\<open>get_pricing_data\<close>.
\<close>

definition example_rows :: "item list" where
  "example_rows =
     [\<lparr> item_name = ''Acme'', item_website = Some ''acme.test'' \<rparr>,
      \<lparr> item_name = ''Beta'', item_website = Some ''beta.test'' \<rparr>,
      \<lparr> item_name = ''Gamma'', item_website = Some '' '' \<rparr>]"

definition example_checkpoint :: checkpoint where
  "example_checkpoint =
     \<lparr> cp_results =
         [(''Acme'',
           [(''currency'', JStr ''usd''), (''plans'', JArr [JObj [(''name'', JStr ''Pro'')]]),
            (''name'', JStr ''Acme''), (''domain'', JStr ''https://acme.test''),
            (''source_url'', JStr ''https://acme.test/pricing''), (''success'', JBool True),
            (''content_length'', JNum 500)])],
       cp_processed_count = 1,
       cp_total_count = 3 \<rparr>"

definition no_escape :: "string \<Rightarrow> string \<Rightarrow> exn option" where
  "no_escape website name = None"

text \<open>A checkpoint file that can be written, and one that cannot.\<close>

definition file_written :: "checkpoint \<Rightarrow> exn option" where
  "file_written c = None"

definition disk_full :: "checkpoint \<Rightarrow> exn option" where
  "disk_full c = Some (Exn ''[Errno 28] No space left on device'')"

text \<open>A site whose analysis returns plans but no \<^verbatim>\<open>currency\<close>.\<close>

definition example_extractor_no_currency :: extractor where
  "example_extractor_no_currency =
     \<lparr> self_find_pricing_routes = (\<lambda>domain. Inr [''https://beta.test/pricing'']),
       self_extract_pricing_content = (\<lambda>url. Inr (replicate 500 CHR ''x'')),
       self_analyze_pricing_with_ai =
         (\<lambda>content url. Inr [(''plans'', JArr [JObj [(''name'', JStr ''Basic'')]])]) \<rparr>"

text \<open>A site whose only ranked page has too little text to be analyzed.\<close>

definition example_extractor_short :: extractor where
  "example_extractor_short =
     \<lparr> self_find_pricing_routes = (\<lambda>domain. Inr [''https://beta.test/pricing'']),
       self_extract_pricing_content = (\<lambda>url. Inr ''Not found''),
       self_analyze_pricing_with_ai = (\<lambda>content url. Inr []) \<rparr>"

section \<open>The network and the libraries\<close>

text \<open>
  The HTTP client, the HTML/XML parser, \<^verbatim>\<open>urllib\<close> and the browser are outside the
  repository. They enter the model as the functions of an environment \<open>web\<close>: what a
  request for a URL returns (a response, or an exception such as a timeout), and what the
  parser finds in a document. A response carries its status code, its body and its
  \<^verbatim>\<open>content-type\<close> header (the empty string when absent). The environment answers a
  request by its URL alone.
\<close>

record response =
  status_code :: nat
  content_bytes :: string
  content_type :: string

record web =
  http_head :: "string \<Rightarrow> exn + response"
  http_get :: "string \<Rightarrow> exn + response"
  browser_goto :: "string \<Rightarrow> exn + nat option"
  browser_render :: "string \<Rightarrow> exn + string"
  urljoin :: "string \<Rightarrow> string \<Rightarrow> exn + string"
  url_has_scheme_and_netloc :: "string \<Rightarrow> bool"
  html_body_text :: "string \<Rightarrow> exn + string option"
  html_main_content :: "string \<Rightarrow> exn + (string list \<times> string option)"
  html_selector_hit :: "string \<Rightarrow> bool"
  html_card_currency :: "string \<Rightarrow> bool"
  re_price_search :: "string \<Rightarrow> bool"
  xml_locs :: "string \<Rightarrow> string list"
  xml_url_locs :: "string \<Rightarrow> string list"
  xml_sitemap_locs :: "string \<Rightarrow> string option list"

text \<open>
  \<^item> \<open>http_head\<close>, \<open>http_get\<close>: \<^verbatim>\<open>session.head(url, ...)\<close> and \<^verbatim>\<open>session.get(url, ...)\<close>.
  \<^item> \<open>browser_goto\<close>: the status of \<^verbatim>\<open>page.goto(url, ...)\<close> in a fresh page (\<open>None\<close> when
    there is no response).
  \<^item> \<open>browser_render\<close>: the browser calls of \<^verbatim>\<open>_extract_with_playwright\<close> for a URL, from
    \<^verbatim>\<open>init_playwright()\<close> to \<^verbatim>\<open>page.close()\<close>: the HTML that \<^verbatim>\<open>page.content()\<close> returns after
    the navigation and the click on a pricing element, or the exception one of these calls
    raises (a timeout of the navigation among them).
  \<^item> \<open>urljoin\<close>: \<^verbatim>\<open>urllib.parse.urljoin(base, url)\<close>, which raises \<^verbatim>\<open>ValueError\<close> on a
    malformed base such as \<^verbatim>\<open>https://[bad\<close>; \<open>url_has_scheme_and_netloc\<close>: \<^verbatim>\<open>urlparse(url)\<close>
    has a scheme and a host.
  \<^item> \<open>html_body_text\<close>: the document parsed, its \<^verbatim>\<open>script\<close>, \<^verbatim>\<open>style\<close>, \<^verbatim>\<open>nav\<close>, \<^verbatim>\<open>footer\<close>
    and \<^verbatim>\<open>header\<close> elements removed, and the text of its \<^verbatim>\<open>body\<close> (\<open>None\<close> when it has no
    \<^verbatim>\<open>body\<close>).
  \<^item> \<open>html_main_content\<close>: the rendered document parsed, its \<^verbatim>\<open>script\<close>, \<^verbatim>\<open>style\<close>, \<^verbatim>\<open>nav\<close>,
    \<^verbatim>\<open>footer\<close>, \<^verbatim>\<open>header\<close> and \<^verbatim>\<open>iframe\<close> elements removed; the texts of the elements that
    the main-content selectors (\<^verbatim>\<open>main\<close>, \<^verbatim>\<open>[role="main"]\<close>, \<^verbatim>\<open>.main-content\<close>, \<^verbatim>\<open>.content\<close>,
    \<^verbatim>\<open>#content\<close>, \<^verbatim>\<open>.pricing\<close>, \<^verbatim>\<open>.pricing-container\<close>, \<^verbatim>\<open>.plan-cards\<close>, \<^verbatim>\<open>.price-table\<close>)
    match, in the order the two nested loops visit them, and the text of its \<^verbatim>\<open>body\<close>
    (\<open>None\<close> when it has no \<^verbatim>\<open>body\<close>).
  \<^item> \<open>html_selector_hit\<close>: one of the pricing selectors matches; \<open>html_card_currency\<close>: a
    \<^verbatim>\<open>div[class*="border-"]\<close> holds a currency symbol; \<open>re_price_search\<close>: the price
    pattern occurs in a text.
  \<^item> \<open>xml_locs\<close>: the texts of all \<^verbatim>\<open>loc\<close> elements; \<open>xml_url_locs\<close>: for each \<^verbatim>\<open>url\<close>
    element with a non-empty \<^verbatim>\<open>loc\<close>, that text; \<open>xml_sitemap_locs\<close>: for each \<^verbatim>\<open>sitemap\<close>
    element, the text of its \<^verbatim>\<open>loc\<close> if it has a non-empty one.
\<close>

datatype request = Head string | Get string | Goto string

section \<open>Existence Checker: \<^verbatim>\<open>_check_url_exists\<close>\<close>

text \<open>\<^verbatim>\<open>main.py\<close>: the verdict and the requests issued, in order.\<close>

definition check_url_exists :: "web \<Rightarrow> string \<Rightarrow> bool \<times> request list" where
  "check_url_exists env url =
     (let try_get =
            (case http_get env url of
               Inr response \<Rightarrow> (status_code response = 200, [Head url, Get url])
             | Inl e \<Rightarrow> (False, [Head url, Get url]))
      in case http_head env url of
           Inr response \<Rightarrow> if status_code response = 200 then (True, [Head url]) else try_get
         | Inl e \<Rightarrow> try_get)"

text \<open>\<^verbatim>\<open>main_failed.py\<close>: GET first, then the browser, then HEAD; a status below 400 counts.\<close>

definition check_url_exists_main_failed :: "web \<Rightarrow> string \<Rightarrow> bool \<times> request list" where
  "check_url_exists_main_failed env url =
     (let try_head =
            (case http_head env url of
               Inr response \<Rightarrow> (status_code response < 400, [Get url, Goto url, Head url])
             | Inl e \<Rightarrow> (False, [Get url, Goto url, Head url]));
          try_browser =
            (case browser_goto env url of
               Inr (Some status) \<Rightarrow>
                 if status \<noteq> 0 \<and> status < 400 then (True, [Get url, Goto url]) else try_head
             | Inr None \<Rightarrow> try_head
             | Inl e \<Rightarrow> try_head)
      in case http_get env url of
           Inr response \<Rightarrow> if status_code response < 400 then (True, [Get url]) else try_browser
         | Inl e \<Rightarrow> try_browser)"

section \<open>Content Extractor: \<^verbatim>\<open>extract_pricing_content\<close>\<close>

text \<open>\<^verbatim>\<open>str(n)\<close> for a status code.\<close>

fun str_nat :: "nat \<Rightarrow> string" where
  "str_nat n =
     (if n < 10 then [''0123456789'' ! n]
      else str_nat (n div 10) @ [''0123456789'' ! (n mod 10)])"

text \<open>
  \<^verbatim>\<open>main.py\<close>. The returned string, and what the detection of pricing indicators logged
  (\<open>None\<close> when the method returned before it).
\<close>

definition extract_pricing_content :: "web \<Rightarrow> string \<Rightarrow> string \<times> bool option" where
  "extract_pricing_content env url =
     (case http_get env url of
        Inl e \<Rightarrow> (''Error extracting content: '' @ str_exn e, None)
      | Inr response \<Rightarrow>
          if status_code response \<noteq> 200
          then (''Error: HTTP '' @ str_nat (status_code response), None)
          else
            (case html_body_text env (content_bytes response) of
               Inl e \<Rightarrow> (''Error extracting content: '' @ str_exn e, None)
             | Inr None \<Rightarrow> (''Error: No body tag found'', None)
             | Inr (Some full_body_text) \<Rightarrow>
                 let pricing_found = html_selector_hit env (content_bytes response);
                     pricing_found =
                       (if \<not> pricing_found then html_card_currency env (content_bytes response)
                        else pricing_found);
                     pricing_found =
                       (if \<not> pricing_found then re_price_search env full_body_text
                        else pricing_found)
                 in (take 50000 full_body_text, Some pricing_found)))"

text \<open>The body text of the page at a URL, when the fetch succeeds: the request returns,
  with status 200, a document that has a \<^verbatim>\<open>body\<close>.\<close>

definition page_text :: "web \<Rightarrow> string \<Rightarrow> string option" where
  "page_text env url =
     (case http_get env url of
        Inl e \<Rightarrow> None
      | Inr response \<Rightarrow>
          if status_code response \<noteq> 200 then None
          else (case html_body_text env (content_bytes response) of
                  Inl e \<Rightarrow> None
                | Inr body \<Rightarrow> body))"

text \<open>
  \<^verbatim>\<open>main_failed.py\<close>: the browser first, plain HTTP as the fallback; no detection.
  \<open>longest_text\<close> is the pair of loops over the main-content selectors and their elements:
  \<^verbatim>\<open>if len(text) > len(body_text): body_text = text\<close>, from the empty string on.
\<close>

definition longest_text :: "string list \<Rightarrow> string" where
  "longest_text texts =
     fold (\<lambda>text body_text. if length text > length body_text then text else body_text) texts []"

text \<open>\<^verbatim>\<open>_extract_with_playwright\<close>: every exception of the \<^verbatim>\<open>try\<close> block gives the empty
  string.\<close>

definition extract_with_playwright :: "web \<Rightarrow> string \<Rightarrow> string" where
  "extract_with_playwright env url =
     (case browser_render env url of
        Inl e \<Rightarrow> []
      | Inr doc \<Rightarrow>
          (case html_main_content env doc of
             Inl e \<Rightarrow> []
           | Inr (texts, body) \<Rightarrow>
               let body_text = longest_text texts;
                   body_text =
                     (if body_text = [] \<or> length body_text < 100
                      then (case body of Some t \<Rightarrow> t | None \<Rightarrow> body_text)
                      else body_text)
               in take 50000 body_text))"

definition extract_with_requests :: "web \<Rightarrow> string \<Rightarrow> string" where
  "extract_with_requests env url =
     (case http_get env url of
        Inl e \<Rightarrow> ''Error: '' @ str_exn e
      | Inr response \<Rightarrow>
          if status_code response \<noteq> 200
          then ''Error: HTTP '' @ str_nat (status_code response)
          else
            (case html_body_text env (content_bytes response) of
               Inl e \<Rightarrow> ''Error: '' @ str_exn e
             | Inr None \<Rightarrow> ''Error: No body tag found''
             | Inr (Some body_text) \<Rightarrow> take 50000 body_text))"

definition extract_pricing_content_main_failed :: "web \<Rightarrow> string \<Rightarrow> string" where
  "extract_pricing_content_main_failed env url =
     (let playwright_content = extract_with_playwright env url
      in if playwright_content \<noteq> [] \<and> length playwright_content > 100 then playwright_content
         else
           let requests_content = extract_with_requests env url
           in if requests_content \<noteq> [] \<and> length requests_content > 100 then requests_content
              else ''Error: Could not extract content with either method'')"

text \<open>
  The text of the page as the browser path reads it, when the browser renders the page
  and the document parses: the longest text of a main-content element, or the text of the
  body when that is shorter than 100 characters and the document has a body.
  \<open>long_enough\<close> keeps a text of more than 100 characters.
\<close>

definition rendered_text :: "web \<Rightarrow> string \<Rightarrow> string option" where
  "rendered_text env url =
     (case browser_render env url of
        Inl e \<Rightarrow> None
      | Inr doc \<Rightarrow>
          (case html_main_content env doc of
             Inl e \<Rightarrow> None
           | Inr (texts, body) \<Rightarrow>
               Some (if length (longest_text texts) < 100
                     then (case body of Some t \<Rightarrow> t | None \<Rightarrow> longest_text texts)
                     else longest_text texts)))"

definition long_enough :: "string option \<Rightarrow> string option" where
  "long_enough text =
     (case text of
        None \<Rightarrow> None
      | Some t \<Rightarrow> if 100 < length t then Some t else None)"

subsection \<open>A small site\<close>

text \<open>
  The pricing page answers HEAD and GET with 200; the homepage rejects HEAD (405) but
  answers GET; \<^verbatim>\<open>/empty\<close> answers HEAD with 204 and GET with 404; any other HEAD times out
  and any other GET is a 404. Every document has a body of 60000 characters and no pricing
  indicator. There is no browser. Joining a path to the malformed base \<^verbatim>\<open>https://[bad\<close>
  raises.
\<close>

definition example_web :: web where
  "example_web =
     \<lparr> http_head =
         (\<lambda>url. if url = ''https://acme.test/pricing''
                 then Inr \<lparr> status_code = 200, content_bytes = [], content_type = ''text/html'' \<rparr>
                 else if url = ''https://acme.test/empty''
                 then Inr \<lparr> status_code = 204, content_bytes = [], content_type = [] \<rparr>
                 else if url = ''https://acme.test''
                 then Inr \<lparr> status_code = 405, content_bytes = [], content_type = [] \<rparr>
                 else Inl (Exn ''timeout'')),
       http_get =
         (\<lambda>url. if url = ''https://acme.test/pricing'' \<or> url = ''https://acme.test''
                 then Inr \<lparr> status_code = 200, content_bytes = ''<html>'',
                            content_type = ''text/html'' \<rparr>
                 else Inr \<lparr> status_code = 404, content_bytes = [], content_type = [] \<rparr>),
       browser_goto = (\<lambda>url. Inr None),
       browser_render = (\<lambda>url. Inl (Exn ''no browser'')),
       urljoin =
         (\<lambda>base path. if base = ''https://[bad'' then Inl (Exn ''Invalid IPv6 URL'')
                       else Inr (base @ path)),
       url_has_scheme_and_netloc = (\<lambda>url. startswith url ''https://''),
       html_body_text = (\<lambda>doc. Inr (Some (replicate 60000 CHR ''x''))),
       html_main_content = (\<lambda>doc. Inr ([], None)),
       html_selector_hit = (\<lambda>doc. False),
       html_card_currency = (\<lambda>doc. False),
       re_price_search = (\<lambda>text. False),
       xml_locs = (\<lambda>doc. []),
       xml_url_locs = (\<lambda>doc. []),
       xml_sitemap_locs = (\<lambda>doc. []) \<rparr>"

text \<open>
  The same site seen through a browser: the rendered pricing page has a \<^verbatim>\<open>main\<close> element
  of 200 characters inside a body of 60000, and the rendered page \<^verbatim>\<open>/tiny\<close> has a body of
  50 characters and no main-content element.
\<close>

definition browser_web :: web where
  "browser_web =
     example_web
       \<lparr> browser_render :=
           (\<lambda>url. if url = ''https://acme.test/tiny'' then Inr ''<tiny>'' else Inr ''<html>''),
         http_get :=
           (\<lambda>url. Inr \<lparr> status_code = 200,
                        content_bytes =
                          (if url = ''https://acme.test/tiny'' then ''<tiny>'' else ''<html>''),
                        content_type = ''text/html'' \<rparr>),
         html_body_text :=
           (\<lambda>doc. if doc = ''<tiny>'' then Inr (Some (replicate 50 CHR ''y''))
                   else Inr (Some (replicate 60000 CHR ''x''))),
         html_main_content :=
           (\<lambda>doc. if doc = ''<tiny>'' then Inr ([], Some (replicate 50 CHR ''y''))
                   else Inr ([replicate 200 CHR ''m''], Some (replicate 60000 CHR ''x''))) \<rparr>"

section \<open>Sitemap Traversal Engine\<close>

text \<open>
  A Python \<^verbatim>\<open>set\<close> that is only tested for membership is a HOL set. Where the code turns a
  set into a list (\<^verbatim>\<open>list(links)\<close>, \<^verbatim>\<open>list(set(nested_sitemaps))\<close>) Python leaves the order
  open; the model keeps the distinct elements in list order (\<open>remdups\<close>). \<open>append_new\<close> is
  the idiom \<^verbatim>\<open>if x not in seen: seen.add(x); out.append(x)\<close> over a list.
\<close>

definition append_new :: "'a list \<Rightarrow> 'a list" where
  "append_new xs = fold (\<lambda>x out. if x \<in> set out then out else out @ [x]) xs []"

text \<open>\<^verbatim>\<open>_is_valid_url\<close>.\<close>

definition is_valid_url :: "web \<Rightarrow> string \<Rightarrow> bool" where
  "is_valid_url env url =
     (if \<not> url_has_scheme_and_netloc env url then False
      else if list_ex (\<lambda>ext. endswith (py_lower url) ext)
                [''.pdf'', ''.jpg'', ''.png'', ''.gif'', ''.zip'', ''.exe'', ''.css'', ''.js'']
      then False
      else True)"

text \<open>\<^verbatim>\<open>text.split('\n')\<close> and \<^verbatim>\<open>line.split(':', 1)[1]\<close> (for a line that has a colon).\<close>

fun split_lines :: "string \<Rightarrow> string list" where
  "split_lines [] = [[]]"
| "split_lines (c # cs) =
     (if c = CHR 0x0A then [] # split_lines cs
      else (case split_lines cs of
              [] \<Rightarrow> [[c]]
            | l # ls \<Rightarrow> (c # l) # ls))"

definition after_colon :: "string \<Rightarrow> string" where
  "after_colon line = tl (dropWhile (\<lambda>c. c \<noteq> CHR '':'') line)"

text \<open>\<^verbatim>\<open>_discover_sitemap_urls\<close>: the well-known locations, then the \<^verbatim>\<open>Sitemap:\<close> lines of
  \<^verbatim>\<open>robots.txt\<close>. The calls of \<^verbatim>\<open>urljoin\<close> are outside the \<^verbatim>\<open>try\<close> of the method: the
  first one that raises ends it (\<open>join_all\<close> is the loop over the locations).\<close>

fun join_all :: "web \<Rightarrow> string \<Rightarrow> string list \<Rightarrow> exn + string list" where
  "join_all env domain [] = Inr []"
| "join_all env domain (location # rest) =
     (case urljoin env domain location of
        Inl e \<Rightarrow> Inl e
      | Inr url \<Rightarrow>
          (case join_all env domain rest of
             Inl e \<Rightarrow> Inl e
           | Inr urls \<Rightarrow> Inr (url # urls)))"

definition discover_sitemap_urls :: "web \<Rightarrow> string \<Rightarrow> exn + string list" where
  "discover_sitemap_urls env domain =
     (let common_locations =
            [''sitemap.xml'', ''sitemap_index.xml'', ''sitemap/sitemap.xml'',
             ''sitemap.xml.gz'', ''sitemap/sitemap_index.xml'',
             ''wp-sitemap.xml'', ''sitemap-index.xml'']
      in case join_all env domain common_locations of
           Inl e \<Rightarrow> Inl e
         | Inr sitemap_urls \<Rightarrow>
             (case urljoin env domain ''robots.txt'' of
                Inl e \<Rightarrow> Inl e
              | Inr robots_url \<Rightarrow>
                  (case http_get env robots_url of
                     Inl e \<Rightarrow> Inr sitemap_urls
                   | Inr response \<Rightarrow>
                       if status_code response = 200
                       then Inr (sitemap_urls @
                              map (\<lambda>line. py_strip (after_colon line))
                                (filter (\<lambda>line. startswith (py_lower line) ''sitemap:'')
                                   (map py_strip (split_lines (content_bytes response)))))
                       else Inr sitemap_urls)))"

text \<open>\<^verbatim>\<open>_extract_links_from_sitemap\<close>; the result is \<^verbatim>\<open>list(links)\<close> of a set.\<close>

definition extract_links_from_sitemap :: "web \<Rightarrow> string \<Rightarrow> string list" where
  "extract_links_from_sitemap env sitemap_url =
     (case http_get env sitemap_url of
        Inl e \<Rightarrow> []
      | Inr response \<Rightarrow>
          if py_in ''xml'' sitemap_url
          then remdups
                 (filter (\<lambda>url. url \<noteq> [] \<and> is_valid_url env url)
                    (map py_strip (xml_locs env (content_bytes response))) @
                  filter (is_valid_url env)
                    (map py_strip (xml_url_locs env (content_bytes response))))
          else [])"

text \<open>\<^verbatim>\<open>_is_sitemap_index\<close>: the URL pattern first, then the headers, then the body.\<close>

definition is_sitemap_index :: "web \<Rightarrow> string \<Rightarrow> bool" where
  "is_sitemap_index env sitemap_url =
     (if any_in [''sitemap_index'', ''sitemap-index'', ''sitemap.index'', ''index.xml'',
                 ''sitemap.xml/index''] (py_lower sitemap_url)
      then True
      else
        (case http_head env sitemap_url of
           Inl e \<Rightarrow> False
         | Inr response \<Rightarrow>
             if status_code response \<noteq> 200 then False
             else if \<not> py_in ''xml'' (py_lower (content_type response)) then False
             else
               (case http_get env sitemap_url of
                  Inl e \<Rightarrow> False
                | Inr response \<Rightarrow>
                    any_in [''sitemapindex'', ''sitemap_index'', ''<sitemapindex'',
                            ''<sitemapindex>'',
                            ''sitemap-type='' @ [CHR 0x22] @ ''index'' @ [CHR 0x22]]
                      (py_lower (content_bytes response)))))"

text \<open>
  The children an index document names, as the first half of the \<^verbatim>\<open>try\<close> block of
  \<^verbatim>\<open>_extract_nested_sitemaps\<close> collects them: the \<^verbatim>\<open>loc\<close> of every \<^verbatim>\<open>sitemap\<close> element, or,
  when the document has no \<^verbatim>\<open>sitemap\<close> element, every \<^verbatim>\<open>loc\<close> that differs from the index
  and looks like a sitemap.
\<close>

definition nested_locs :: "web \<Rightarrow> string \<Rightarrow> string \<Rightarrow> string list" where
  "nested_locs env sitemap_index_url doc =
     (let sitemap_tags = xml_sitemap_locs env doc
      in if sitemap_tags \<noteq> []
         then append_new (map py_strip (concat (map (\<lambda>loc. case loc of None \<Rightarrow> [] | Some t \<Rightarrow> [t])
                                                  sitemap_tags)))
         else append_new
                (filter (\<lambda>url. url \<noteq> sitemap_index_url \<and>
                                (py_in ''sitemap'' (py_lower url) \<or> py_in ''.xml'' url))
                   (map py_strip (xml_locs env doc))))"

text \<open>
  \<^verbatim>\<open>_extract_nested_sitemaps(sitemap_index_url, processed_urls, depth)\<close>. The set
  \<^verbatim>\<open>processed_urls\<close> is shared by all recursive calls and mutated, so it is passed in and
  returned. The third component records every document the recursion fetches, with the
  depth of the call that fetched it.
\<close>

function extract_nested_sitemaps ::
  "web \<Rightarrow> string \<Rightarrow> string set \<Rightarrow> nat \<Rightarrow> string list \<times> string set \<times> (string \<times> nat) list" where
  "extract_nested_sitemaps env sitemap_index_url processed_urls depth =
     (if depth > 10 then ([], processed_urls, [])
      else if sitemap_index_url \<in> processed_urls then ([], processed_urls, [])
      else
        (case http_get env sitemap_index_url of
           Inl e \<Rightarrow> ([], insert sitemap_index_url processed_urls, [(sitemap_index_url, depth)])
         | Inr response \<Rightarrow>
             let nested_sitemaps = nested_locs env sitemap_index_url (content_bytes response);
                 (additional_sitemaps, processed_urls, fetched) =
                   fold (\<lambda>nested_sitemap (additional_sitemaps, processed_urls, fetched).
                           if nested_sitemap \<notin> processed_urls \<and> is_sitemap_index env nested_sitemap
                           then
                             (case extract_nested_sitemaps env nested_sitemap processed_urls
                                     (depth + 1) of
                                (deeper_sitemaps, processed_urls, fetched') \<Rightarrow>
                                  (additional_sitemaps @ deeper_sitemaps, processed_urls,
                                   fetched @ fetched'))
                           else (additional_sitemaps, processed_urls, fetched))
                        nested_sitemaps
                        ([], insert sitemap_index_url processed_urls, [(sitemap_index_url, depth)])
             in (remdups (nested_sitemaps @ additional_sitemaps), processed_urls, fetched)))"
  by pat_completeness auto
termination
  by (relation "measure (\<lambda>(env, sitemap_index_url, processed_urls, depth). 11 - depth)") auto

text \<open>
  The \<^verbatim>\<open>while\<close> loop of \<^verbatim>\<open>_get_all_sitemap_links\<close>: the queue, the iteration counter, the
  processed sitemaps and the links collected so far; \<open>fetched\<close> gathers the records of the
  nested expansions. It returns the links, the final counter and the records.
\<close>

definition enqueue_new :: "string set \<Rightarrow> string list \<Rightarrow> string list \<Rightarrow> string list" where
  "enqueue_new processed_sitemaps nested_sitemaps sitemap_queue =
     fold (\<lambda>nested_sitemap queue.
             if nested_sitemap \<notin> processed_sitemaps \<and> nested_sitemap \<notin> set queue
             then queue @ [nested_sitemap] else queue)
       nested_sitemaps sitemap_queue"

function sitemap_loop ::
  "web \<Rightarrow> string list \<Rightarrow> nat \<Rightarrow> string set \<Rightarrow> string list \<Rightarrow> (string \<times> nat) list
     \<Rightarrow> string list \<times> nat \<times> (string \<times> nat) list" where
  "sitemap_loop env sitemap_queue iterations processed_sitemaps all_sitemap_links fetched =
     (if sitemap_queue \<noteq> [] \<and> iterations < 50 then
        if hd sitemap_queue \<in> processed_sitemaps
        then sitemap_loop env (tl sitemap_queue) (iterations + 1) processed_sitemaps
               all_sitemap_links fetched
        else if \<not> fst (check_url_exists env (hd sitemap_queue))
        then sitemap_loop env (tl sitemap_queue) (iterations + 1) processed_sitemaps
               all_sitemap_links fetched
        else if is_sitemap_index env (hd sitemap_queue)
        then sitemap_loop env
               (enqueue_new (insert (hd sitemap_queue) processed_sitemaps)
                  (fst (extract_nested_sitemaps env (hd sitemap_queue) {} 0)) (tl sitemap_queue))
               (iterations + 1) (insert (hd sitemap_queue) processed_sitemaps)
               (List.union all_sitemap_links (extract_links_from_sitemap env (hd sitemap_queue)))
               (fetched @ snd (snd (extract_nested_sitemaps env (hd sitemap_queue) {} 0)))
        else sitemap_loop env (tl sitemap_queue) (iterations + 1)
               (insert (hd sitemap_queue) processed_sitemaps)
               (List.union all_sitemap_links (extract_links_from_sitemap env (hd sitemap_queue)))
               fetched
      else (all_sitemap_links, iterations, fetched))"
  by pat_completeness auto
termination
  by (relation "measure (\<lambda>(env, sitemap_queue, iterations, rest). 50 - iterations)") auto

text \<open>\<^verbatim>\<open>_get_all_sitemap_links\<close>. An exception of the discovery is caught by the \<^verbatim>\<open>try\<close> of
  the method, before the loop has run: no link has been collected.\<close>

definition get_all_sitemap_links ::
  "web \<Rightarrow> string \<Rightarrow> string list \<times> nat \<times> (string \<times> nat) list" where
  "get_all_sitemap_links env domain =
     (case discover_sitemap_urls env domain of
        Inl e \<Rightarrow> ([], 0, [])
      | Inr sitemap_urls \<Rightarrow> sitemap_loop env sitemap_urls 0 {} [] [])"

subsection \<open>A sitemap index graph with a cycle\<close>

text \<open>
  The index \<^verbatim>\<open>https://s.test/sitemap_index.xml\<close> (document \<^verbatim>\<open>A\<close>) names the index
  \<^verbatim>\<open>https://s.test/b/sitemap_index.xml\<close> (document \<^verbatim>\<open>B\<close>), which names the first one again
  and one page. No other sitemap location exists and there is no \<^verbatim>\<open>robots.txt\<close>.
\<close>

definition cyclic_web :: web where
  "cyclic_web =
     \<lparr> http_head =
         (\<lambda>url. if url = ''https://s.test/sitemap_index.xml'' \<or> url = ''https://s.test/b/sitemap_index.xml''
                 then Inr \<lparr> status_code = 200, content_bytes = [], content_type = ''application/xml'' \<rparr>
                 else Inr \<lparr> status_code = 404, content_bytes = [], content_type = [] \<rparr>),
       http_get =
         (\<lambda>url. if url = ''https://s.test/sitemap_index.xml''
                 then Inr \<lparr> status_code = 200, content_bytes = ''A'', content_type = ''application/xml'' \<rparr>
                 else if url = ''https://s.test/b/sitemap_index.xml''
                 then Inr \<lparr> status_code = 200, content_bytes = ''B'', content_type = ''application/xml'' \<rparr>
                 else Inr \<lparr> status_code = 404, content_bytes = [], content_type = [] \<rparr>),
       browser_goto = (\<lambda>url. Inr None),
       browser_render = (\<lambda>url. Inl (Exn ''no browser'')),
       urljoin = (\<lambda>base path. Inr (base @ ''/'' @ path)),
       url_has_scheme_and_netloc = (\<lambda>url. startswith url ''https://''),
       html_body_text = (\<lambda>doc. Inr None),
       html_main_content = (\<lambda>doc. Inr ([], None)),
       html_selector_hit = (\<lambda>doc. False),
       html_card_currency = (\<lambda>doc. False),
       re_price_search = (\<lambda>text. False),
       xml_locs =
         (\<lambda>doc. if doc = ''A'' then [''https://s.test/b/sitemap_index.xml'']
                 else if doc = ''B'' then [''https://s.test/sitemap_index.xml'', ''https://s.test/pricing'']
                 else []),
       xml_url_locs = (\<lambda>doc. if doc = ''B'' then [''https://s.test/pricing''] else []),
       xml_sitemap_locs =
         (\<lambda>doc. if doc = ''A'' then [Some ''https://s.test/b/sitemap_index.xml'']
                 else if doc = ''B'' then [Some ''https://s.test/sitemap_index.xml'']
                 else []) \<rparr>"

section \<open>Pricing-URL Ranker\<close>

text \<open>
  The language model is outside the repository: \<open>ai_rank domain links\<close> is the text of
  the completion for the ranking prompt built from the domain and the links (or the
  exception the call, or reading its content, raises). \<open>json_loads\<close> is \<^verbatim>\<open>json.loads\<close> on a
  brace-delimited span: the decoded object, or \<open>None\<close> when decoding raises.
\<close>

record llm =
  ai_rank :: "string \<Rightarrow> string list \<Rightarrow> exn + string"
  json_loads :: "string \<Rightarrow> dict option"

text \<open>\<^verbatim>\<open>re.search(r'\{.*\}', text, re.DOTALL)\<close>: the span from the first opening brace to the
  last closing brace after it, if there is one.\<close>

definition json_span :: "string \<Rightarrow> string option" where
  "json_span text =
     (let from_brace = dropWhile (\<lambda>c. c \<noteq> CHR ''{'') text
      in if from_brace = [] then None
         else if CHR ''}'' \<in> set (tl from_brace)
         then Some (rev (dropWhile (\<lambda>c. c \<noteq> CHR ''}'') (rev from_brace)))
         else None)"

text \<open>\<^verbatim>\<open>for url in v\<close>: the elements of a list, the characters of a string, the keys of an
  object; \<^verbatim>\<open>TypeError\<close> (\<open>None\<close>) otherwise.\<close>

fun py_iter :: "json \<Rightarrow> json list option" where
  "py_iter (JArr xs) = Some xs"
| "py_iter (JStr s) = Some (map (\<lambda>c. JStr [c]) s)"
| "py_iter (JObj kvs) = Some (map (\<lambda>kv. JStr (fst kv)) kvs)"
| "py_iter JNull = None"
| "py_iter (JBool b) = None"
| "py_iter (JNum n) = None"

text \<open>
  The suggested URLs that pass the Existence Checker. A suggestion that is not a string
  makes the HTTP client raise before any request; both tiers of the checker swallow the
  exception and the verdict is false.
\<close>

definition valid_urls :: "web \<Rightarrow> json list \<Rightarrow> string list" where
  "valid_urls env pricing_urls =
     concat (map (\<lambda>v. case v of
                        JStr url \<Rightarrow> if fst (check_url_exists env url) then [url] else []
                      | _ \<Rightarrow> [])
               pricing_urls)"

text \<open>
  \<^verbatim>\<open>_fallback_pricing_urls\<close>. It has no \<^verbatim>\<open>try\<close>: when \<^verbatim>\<open>urljoin(domain, path)\<close> raises for a
  common path, the exception leaves the method (\<open>Inl\<close>) and the remaining paths are not
  probed.
\<close>

definition fallback_pricing_urls :: "web \<Rightarrow> string \<Rightarrow> string list \<Rightarrow> exn + string list" where
  "fallback_pricing_urls env domain all_links =
     (let pricing_keywords =
            [''pricing'', ''price'', ''plans'', ''plan'', ''subscribe'', ''buy'', ''order''];
          fallback_urls =
            filter (\<lambda>link. any_in pricing_keywords (py_lower link) \<and>
                            fst (check_url_exists env link)) all_links;
          fallback_urls =
            (if domain \<notin> set fallback_urls \<and> fst (check_url_exists env domain)
             then fallback_urls @ [domain] else fallback_urls);
          common_paths = [''/pricing'', ''/price'', ''/plans'', ''/plan'', ''/subscription'']
      in fold (\<lambda>path r.
                 case r of
                   Inl e \<Rightarrow> Inl e
                 | Inr fallback_urls \<Rightarrow>
                     (case urljoin env domain path of
                        Inl e \<Rightarrow> Inl e
                      | Inr url \<Rightarrow>
                          if fst (check_url_exists env url) \<and> url \<notin> set fallback_urls
                          then Inr (fallback_urls @ [url]) else Inr fallback_urls))
           common_paths (Inr fallback_urls))"

text \<open>The sampling of \<^verbatim>\<open>_ai_identify_pricing_links\<close>: the body of
  \<^verbatim>\<open>if len(all_links) > max_links\<close>.\<close>

definition sample_links :: "string \<Rightarrow> string list \<Rightarrow> string list" where
  "sample_links domain all_links =
     (let max_links = 400;
          high_priority =
            filter (\<lambda>link. any_in [''pricing'', ''price'', ''plan'', ''buy'', ''subscribe'',
                                    ''order'', ''checkout''] (py_lower link)) all_links;
          medium_priority =
            filter (\<lambda>link. any_in [''product'', ''feature'', ''service'', ''solution'',
                                    ''package'', ''tier''] (py_lower link)) all_links;
          low_priority =
            filter (\<lambda>link. link \<notin> set (high_priority @ medium_priority)) all_links;
          sampled_links = take (max_links div 3) high_priority;
          remaining = max_links - length sampled_links;
          sampled_links = sampled_links @ take (remaining div 2) medium_priority;
          remaining = max_links - length sampled_links;
          sampled_links = sampled_links @ take remaining low_priority
      in if domain \<notin> set sampled_links then sampled_links @ [domain] else sampled_links)"

text \<open>The list the prompt is built from: the homepage ensured, then the sampling.\<close>

definition links_for_ai :: "string \<Rightarrow> string list \<Rightarrow> string list" where
  "links_for_ai domain all_links =
     (let all_links = (if domain \<notin> set all_links then all_links @ [domain] else all_links);
          max_links = 400
      in if length all_links > max_links then sample_links domain all_links else all_links)"

text \<open>
  The \<^verbatim>\<open>try\<close> block of \<^verbatim>\<open>_ai_identify_pricing_links\<close>: \<open>Inl\<close> when an exception leaves it
  (the call fails, \<^verbatim>\<open>json.loads\<close> raises, \<^verbatim>\<open>pricing_urls\<close> cannot be iterated, or the
  fallback of the no-match branch raises), \<open>Inr\<close> the list it returns.
\<close>

definition ai_try :: "web \<Rightarrow> llm \<Rightarrow> string \<Rightarrow> string list \<Rightarrow> exn + string list" where
  "ai_try env ai domain all_links =
     (case ai_rank ai domain all_links of
        Inl e \<Rightarrow> Inl e
      | Inr response_text \<Rightarrow>
          (case json_span response_text of
             None \<Rightarrow> fallback_pricing_urls env domain all_links
           | Some json_match \<Rightarrow>
               (case json_loads ai json_match of
                  None \<Rightarrow> Inl (Exn ''JSONDecodeError'')
                | Some result \<Rightarrow>
                    (case py_iter (case map_of result ''pricing_urls'' of
                                     None \<Rightarrow> JArr []
                                   | Some v \<Rightarrow> v) of
                       None \<Rightarrow> Inl (Exn ''TypeError'')
                     | Some pricing_urls \<Rightarrow> Inr (valid_urls env pricing_urls)))))"

text \<open>
  \<^verbatim>\<open>_ai_identify_pricing_links\<close> of \<^verbatim>\<open>main.py\<close>: the list it returns, or the exception that
  leaves it. The handler of the \<^verbatim>\<open>try\<close> block calls the fallback, and nothing catches what
  the fallback raises there.
\<close>

definition ai_identify_pricing_links ::
  "web \<Rightarrow> llm \<Rightarrow> string \<Rightarrow> string list \<Rightarrow> exn + string list" where
  "ai_identify_pricing_links env ai domain all_links =
     (let all_links = links_for_ai domain all_links
      in case ai_try env ai domain all_links of
           Inl e \<Rightarrow> fallback_pricing_urls env domain all_links
         | Inr urls \<Rightarrow> Inr urls)"

subsection \<open>Priority sampling, in the words of the specification\<close>

text \<open>
  A link is high priority when its lower-cased text contains one of the seven high
  keywords, medium priority when it contains one of the six medium keywords, low priority
  when it is neither. \<open>priority_sample\<close> takes up to 133 (a third of 400) high-priority
  links, fills half of what remains of the 400 with medium-priority links, fills the rest
  with low-priority links, and adds the homepage at the end when it is not among them.
\<close>

definition is_high :: "string \<Rightarrow> bool" where
  "is_high link =
     any_in [''pricing'', ''price'', ''plan'', ''buy'', ''subscribe'', ''order'', ''checkout'']
       (py_lower link)"

definition is_medium :: "string \<Rightarrow> bool" where
  "is_medium link =
     any_in [''product'', ''feature'', ''service'', ''solution'', ''package'', ''tier'']
       (py_lower link)"

definition priority_sample :: "string \<Rightarrow> string list \<Rightarrow> string list" where
  "priority_sample domain candidates =
     (let from_high = take 133 (filter is_high candidates);
          from_medium = take ((400 - length from_high) div 2) (filter is_medium candidates);
          from_low = take (400 - length from_high - length from_medium)
                       (filter (\<lambda>link. \<not> is_high link \<and> \<not> is_medium link) candidates);
          sampled = from_high @ from_medium @ from_low
      in if domain \<in> set sampled then sampled else sampled @ [domain])"

definition with_homepage :: "string \<Rightarrow> string list \<Rightarrow> string list" where
  "with_homepage domain all_links =
     (if domain \<in> set all_links then all_links else all_links @ [domain])"

subsection \<open>Two language models and a long candidate list\<close>

text \<open>A model whose call fails, and a model that answers with an empty suggestion list.\<close>

definition failing_llm :: llm where
  "failing_llm =
     \<lparr> ai_rank = (\<lambda>domain links. Inl (Exn ''timeout'')),
       json_loads = (\<lambda>s. None) \<rparr>"

definition empty_answer_llm :: llm where
  "empty_answer_llm =
     \<lparr> ai_rank = (\<lambda>domain links. Inr ''Sure: {\"pricing_urls\": []}''),
       json_loads = (\<lambda>s. if s = ''{\"pricing_urls\": []}''
                          then Some [(''pricing_urls'', JArr [])] else None) \<rparr>"

text \<open>
  401 distinct links: the homepage, a page whose URL has a high and a medium keyword, and
  399 pages \<^verbatim>\<open>/x\<close>, \<^verbatim>\<open>/xx\<close>, ... without keywords.
\<close>

definition plain_link :: "nat \<Rightarrow> string" where
  "plain_link n = ''https://a.test/'' @ replicate n CHR ''x''"

definition long_list :: "string list" where
  "long_list =
     [''https://a.test'', ''https://a.test/product/pricing''] @ map plain_link [1..<400]"

text \<open>401 links with one upper-case pricing URL at the very end.\<close>

definition long_list_upper :: "string list" where
  "long_list_upper =
     [''https://a.test''] @ map plain_link [1..<400] @ [''https://a.test/PRICING'']"

section \<open>Verified properties\<close>

subsection \<open>The loop of \<^verbatim>\<open>get_pricing_data\<close>\<close>

lemma try_url_fst: "(fst (try_url self d n u) = None) = (\<not> accepted self u)"
  by (auto simp: try_url_def accepted_def split: sum.splits)

lemma try_url_None: "\<not> accepted self u \<Longrightarrow> fst (try_url self d n u) = None"
  by (simp add: try_url_fst)

lemma extracted_append: "extracted (xs @ ys) = extracted xs @ extracted ys"
  by (induction xs rule: extracted.induct) auto

lemma analyzed_append: "analyzed (xs @ ys) = analyzed xs @ analyzed ys"
  by (induction xs rule: analyzed.induct) auto

lemma extracted_try_url: "extracted (snd (try_url self d n u)) = [u]"
  by (auto simp: try_url_def split: sum.splits)

lemma analyzed_try_url: "analyzed (snd (try_url self d n u)) = analysis_input self u"
  by (auto simp: try_url_def analysis_input_def split: sum.splits)

lemma try_urls_calls_fail:
  "\<forall>u \<in> set urls. \<not> accepted self u \<Longrightarrow>
   try_urls self d n urls = (None, concat (map (\<lambda>u. snd (try_url self d n u)) urls))"
proof (induction urls)
  case Nil
  then show ?case by simp
next
  case (Cons u urls)
  then have "fst (try_url self d n u) = None" by (simp add: try_url_None)
  then obtain calls where "try_url self d n u = (None, calls)" by (cases "try_url self d n u") auto
  with Cons show ?case by simp
qed

lemma try_urls_calls_hit:
  "find (accepted self) urls = Some u \<Longrightarrow>
   try_urls self d n urls =
     (fst (try_url self d n u),
      concat (map (\<lambda>v. snd (try_url self d n v)) (takeWhile (\<lambda>v. \<not> accepted self v) urls))
        @ snd (try_url self d n u))"
proof (induction urls)
  case Nil
  then show ?case by simp
next
  case (Cons v urls)
  show ?case
  proof (cases "accepted self v")
    case True
    with Cons.prems have uv: "u = v" by simp
    from True have "fst (try_url self d n v) \<noteq> None" by (simp only: try_url_fst, simp)
    then obtain r calls where "try_url self d n v = (Some r, calls)"
      by (cases "try_url self d n v") auto
    with True uv show ?thesis by simp
  next
    case False
    then have "fst (try_url self d n v) = None" by (simp add: try_url_None)
    then obtain calls where "try_url self d n v = (None, calls)" by (cases "try_url self d n v") auto
    with False Cons show ?thesis by simp
  qed
qed

lemma extracted_concat: "extracted (concat (map (\<lambda>v. snd (try_url self d n v)) urls)) = urls"
  by (induction urls) (auto simp: extracted_append extracted_try_url)

lemma analyzed_concat:
  "analyzed (concat (map (\<lambda>v. snd (try_url self d n v)) urls)) = concat (map (analysis_input self) urls)"
  by (induction urls) (auto simp: analyzed_append analyzed_try_url)

lemma find_takeWhile_split:
  "find P xs = Some u \<Longrightarrow> xs = takeWhile (\<lambda>v. \<not> P v) xs @ u # tl (dropWhile (\<lambda>v. \<not> P v) xs)"
  by (induction xs) (auto split: if_splits)

lemma tried_urls_prefix: "prefix (tried_urls self urls) urls"
proof (cases "find (accepted self) urls")
  case None
  then show ?thesis by (simp add: tried_urls_def)
next
  case (Some u)
  from find_takeWhile_split[OF Some]
  have "urls = (takeWhile (\<lambda>v. \<not> accepted self v) urls @ [u]) @ tl (dropWhile (\<lambda>v. \<not> accepted self v) urls)"
    by simp
  then have "prefix (takeWhile (\<lambda>v. \<not> accepted self v) urls @ [u]) urls"
    using prefixI by blast
  with Some show ?thesis by (simp add: tried_urls_def)
qed

lemma try_urls_calls:
  "snd (try_urls self d n urls) = concat (map (\<lambda>v. snd (try_url self d n v)) (tried_urls self urls))"
proof (cases "find (accepted self) urls")
  case None
  then have "\<forall>u \<in> set urls. \<not> accepted self u" by (simp add: find_None_iff)
  from try_urls_calls_fail[OF this] None show ?thesis by (simp add: tried_urls_def)
next
  case (Some u)
  from try_urls_calls_hit[OF Some] Some show ?thesis by (simp add: tried_urls_def)
qed

lemma try_urls_result:
  "fst (try_urls self d n urls) =
     (case find (accepted self) urls of None \<Rightarrow> None | Some u \<Rightarrow> fst (try_url self d n u))"
proof (cases "find (accepted self) urls")
  case None
  then have "\<forall>u \<in> set urls. \<not> accepted self u" by (simp add: find_None_iff)
  from try_urls_calls_fail[OF this] None show ?thesis by simp
next
  case (Some u)
  from try_urls_calls_hit[OF Some] Some show ?thesis by simp
qed

lemma extracted_try_urls: "extracted (snd (try_urls self d n urls)) = tried_urls self urls"
  by (simp add: try_urls_calls extracted_concat)

lemma analyzed_try_urls:
  "analyzed (snd (try_urls self d n urls)) = concat (map (analysis_input self) (tried_urls self urls))"
  by (simp add: try_urls_calls analyzed_concat)

lemma analysis_input_urls:
  "map snd (concat (map (analysis_input self) us)) = filter (\<lambda>u. analysis_input self u \<noteq> []) us"
  by (induction us) (auto simp: analysis_input_def split: sum.splits)

lemma get_pricing_data_calls:
  "snd (get_pricing_data self d n) =
     (case self_find_pricing_routes self d of
        Inl e \<Rightarrow> []
      | Inr urls \<Rightarrow> snd (try_urls self d n (take 5 urls)))"
  by (auto simp: get_pricing_data_def try_ranked_def split: sum.splits prod.splits option.splits)

lemma get_pricing_data_main_failed_calls:
  "snd (get_pricing_data_main_failed self d n) =
     (case self_find_pricing_routes self d of
        Inl e \<Rightarrow> []
      | Inr urls \<Rightarrow> snd (try_urls self d n urls))"
  by (auto simp: get_pricing_data_main_failed_def try_ranked_def split: sum.splits prod.splits option.splits)

lemma analyzed_iff:
  assumes "u \<in> set us" and "self_extract_pricing_content self u = Inr content"
  shows "(content, u) \<in> set (concat (map (analysis_input self) us)) \<longleftrightarrow> \<not> skip_content content"
proof
  assume "(content, u) \<in> set (concat (map (analysis_input self) us))"
  then show "\<not> skip_content content"
    by (auto simp: analysis_input_def split: sum.splits if_splits)
next
  assume "\<not> skip_content content"
  with assms(2) have "(content, u) \<in> set (analysis_input self u)"
    by (simp add: analysis_input_def)
  with assms(1) show "(content, u) \<in> set (concat (map (analysis_input self) us))"
    by auto
qed

lemma analyzed_pass:
  "(content, u) \<in> set (concat (map (analysis_input self) us)) \<Longrightarrow> \<not> skip_content content"
  by (auto simp: analysis_input_def split: sum.splits if_splits)

lemma calls_try_urls_analyzed_iff:
  assumes "u \<in> set (extracted (snd (try_urls self d n urls)))"
      and "self_extract_pricing_content self u = Inr content"
  shows "(content, u) \<in> set (analyzed (snd (try_urls self d n urls))) \<longleftrightarrow>
         100 \<le> length content \<and> \<not> py_in ''Error'' content"
proof -
  from assms(1) have "u \<in> set (tried_urls self urls)" by (simp add: extracted_try_urls)
  from analyzed_iff[OF this assms(2)] show ?thesis
    by (auto simp: analyzed_try_urls skip_content_def)
qed

lemma calls_try_urls_analyzed_pass:
  assumes "(content, u) \<in> set (analyzed (snd (try_urls self d n urls)))"
  shows "100 \<le> length content \<and> \<not> py_in ''Error'' content"
  using assms analyzed_pass[of content u self "tried_urls self urls"]
  by (auto simp: analyzed_try_urls skip_content_def)

text \<open>
  Claim C10. In both variants of \<^verbatim>\<open>get_pricing_data\<close>, a content string reaches the Pricing
  Analyzer only if it has at least 100 characters and does not contain \<^verbatim>\<open>Error\<close>; and for
  every URL the loop extracted, its content is analyzed if and only if it has at least 100
  characters and does not contain \<^verbatim>\<open>Error\<close>. So a page whose text merely contains the word
  \<^verbatim>\<open>Error\<close> is skipped and never analyzed.
\<close>

theorem analyzer_called_iff_content_passes:
  "(\<forall>(content, u) \<in> set (analyzed (snd (get_pricing_data self domain name))).
       100 \<le> length content \<and> \<not> py_in ''Error'' content) \<and>
   (\<forall>u \<in> set (extracted (snd (get_pricing_data self domain name))). \<forall>content.
       self_extract_pricing_content self u = Inr content \<longrightarrow>
       ((content, u) \<in> set (analyzed (snd (get_pricing_data self domain name))) \<longleftrightarrow>
        100 \<le> length content \<and> \<not> py_in ''Error'' content)) \<and>
   (\<forall>(content, u) \<in> set (analyzed (snd (get_pricing_data_main_failed self domain name))).
       100 \<le> length content \<and> \<not> py_in ''Error'' content) \<and>
   (\<forall>u \<in> set (extracted (snd (get_pricing_data_main_failed self domain name))). \<forall>content.
       self_extract_pricing_content self u = Inr content \<longrightarrow>
       ((content, u) \<in> set (analyzed (snd (get_pricing_data_main_failed self domain name))) \<longleftrightarrow>
        100 \<le> length content \<and> \<not> py_in ''Error'' content))"
proof (cases "self_find_pricing_routes self domain")
  case (Inl e)
  then show ?thesis
    by (simp add: get_pricing_data_calls get_pricing_data_main_failed_calls)
next
  case (Inr urls)
  then have a: "snd (get_pricing_data self domain name) = snd (try_urls self domain name (take 5 urls))"
    and b: "snd (get_pricing_data_main_failed self domain name) = snd (try_urls self domain name urls)"
    by (simp_all add: get_pricing_data_calls get_pricing_data_main_failed_calls)
  show ?thesis
    unfolding a b
    using calls_try_urls_analyzed_iff calls_try_urls_analyzed_pass by blast
qed

lemma plans_accepted_array:
  "map_of pricing_data ''plans'' = Some (JArr ps) \<Longrightarrow> plans_accepted pricing_data = (ps \<noteq> [])"
  by (simp add: plans_accepted_def)

lemma accepted_yields: "plans_is_list self u \<Longrightarrow> accepted self u = yields_plans self u"
  by (auto simp: plans_is_list_def accepted_def yields_plans_def plans_accepted_def
      nonempty_plans_list_def split: sum.splits option.splits json.splits list.splits)

lemma map_of_success_record:
  "map_of (success_record pd n d u c) ''success'' = Some (JBool True)"
  "map_of (success_record pd n d u c) ''source_url'' = Some (JStr u)"
  by (simp_all add: success_record_def dict_update_def update_conv')

lemma try_url_success:
  "accepted self u \<Longrightarrow> \<exists>pd c. fst (try_url self d n u) = Some (success_record pd n d u c)"
  by (auto simp: accepted_def try_url_def split: sum.splits)

lemma get_pricing_data_result:
  assumes "self_find_pricing_routes self d = Inr urls"
  shows "fst (get_pricing_data self d n) =
     (if urls = [] then failure_record n d ''No pricing pages found''
      else (case fst (try_urls self d n (take 5 urls)) of
              None \<Rightarrow> all_failed_record n d (take 5 urls)
            | Some r \<Rightarrow> r))"
  using assms
  by (auto simp: get_pricing_data_def try_ranked_def split: prod.splits option.splits)

lemma get_pricing_data_main_failed_result:
  assumes "self_find_pricing_routes self d = Inr urls"
  shows "fst (get_pricing_data_main_failed self d n) =
     (if urls = [] then failure_record n d ''No pricing pages found''
      else (case fst (try_urls self d n urls) of
              None \<Rightarrow> all_failed_record n d urls
            | Some r \<Rightarrow> r))"
  using assms
  by (auto simp: get_pricing_data_main_failed_def try_ranked_def split: prod.splits option.splits)

lemma plans_accepted_sized:
  "plans_accepted pricing_data \<longleftrightarrow>
     (\<exists>plans. map_of pricing_data ''plans'' = Some plans \<and> nonempty_sized plans)"
  by (auto simp: plans_accepted_def nonempty_sized_def split: option.splits json.splits)

lemma accepted_iff:
  "accepted self u \<longleftrightarrow>
     (\<exists>content pricing_data plans.
        self_extract_pricing_content self u = Inr content \<and> \<not> skip_content content \<and>
        self_analyze_pricing_with_ai self content u = Inr pricing_data \<and>
        map_of pricing_data ''plans'' = Some plans \<and> nonempty_sized plans)"
  by (auto simp: accepted_def plans_accepted_sized split: sum.splits)

text \<open>The common part of both variants: the loop over a list \<open>us\<close> of candidates.\<close>

lemma loop_first_accepted:
  assumes res: "fst out = (if us = [] then failure_record n d ''No pricing pages found''
                  else (case fst (try_urls self d n us) of
                          None \<Rightarrow> all_failed_record n d us | Some r \<Rightarrow> r))"
      and calls: "snd out = snd (try_urls self d n us)"
  shows "first_accepted_wins self us out"
proof -
  have ex: "extracted (snd out) = tried_urls self us"
    by (simp add: calls extracted_try_urls)
  have p: "prefix (extracted (snd out)) us"
    by (simp add: ex tried_urls_prefix)
  have s: "subseq (map snd (analyzed (snd out))) (extracted (snd out))"
    by (simp add: calls analyzed_try_urls extracted_try_urls analysis_input_urls)
  show ?thesis
  proof (cases "find (accepted self) us")
    case None
    then have "fst (try_urls self d n us) = None" by (simp add: try_urls_result)
    with res have "map_of (fst out) ''success'' = Some (JBool False)"
      by (simp add: failure_record_def all_failed_record_def)
    moreover from None have "extracted (snd out) = us" by (simp add: ex tried_urls_def)
    ultimately show ?thesis using None p s by (simp add: first_accepted_wins_def)
  next
    case (Some u)
    then have acc: "accepted self u" and ne: "us \<noteq> []" by (auto simp: find_Some_iff)
    from try_url_success[OF acc] obtain pd c where
      "fst (try_url self d n u) = Some (success_record pd n d u c)" by blast
    with Some have "fst (try_urls self d n us) = Some (success_record pd n d u c)"
      by (simp add: try_urls_result)
    with res ne have "fst out = success_record pd n d u c" by simp
    then have "map_of (fst out) ''success'' = Some (JBool True)"
          and "map_of (fst out) ''source_url'' = Some (JStr u)"
      by (simp_all add: map_of_success_record)
    moreover from Some have "extracted (snd out) = takeWhile (\<lambda>v. \<not> accepted self v) us @ [u]"
      by (simp add: ex tried_urls_def)
    ultimately show ?thesis using Some p s by (simp add: first_accepted_wins_def)
  qed
qed

text \<open>
  Claim C1, as the code has it. When the ranker raises, \<^verbatim>\<open>get_pricing_data\<close> returns a
  failure record and calls neither the Content Extractor nor the Pricing Analyzer. When it
  returns the list \<open>urls\<close>, \<^verbatim>\<open>get_pricing_data\<close> of \<^verbatim>\<open>main.py\<close> is first-accepted-wins over the
  first 5 URLs: it extracts a prefix of them in order, analyzes only extracted URLs, and
  returns a success record whose \<^verbatim>\<open>source_url\<close> is the first accepted candidate, the
  extractor calls ending with that candidate; if there is none among the first 5, it
  returns a failure after extracting all of them. The variant of \<^verbatim>\<open>main_failed.py\<close> is
  first-accepted-wins over the whole list. A candidate is accepted when its extracted
  content passes the skip filter and its analysis has a \<^verbatim>\<open>plans\<close> entry that is a non-empty
  list, a non-empty string or a non-empty object: the code tests that \<^verbatim>\<open>plans\<close> is true as a
  condition and has a length, not that it is a list.
\<close>

theorem get_pricing_data_first_accepted:
  "(case self_find_pricing_routes self domain of
      Inl e \<Rightarrow>
        get_pricing_data self domain name =
          (failure_record name domain (''Error finding pricing routes: '' @ str_exn e), []) \<and>
        get_pricing_data_main_failed self domain name =
          (failure_record name domain (''Error finding pricing routes: '' @ str_exn e), [])
    | Inr urls \<Rightarrow>
        first_accepted_wins self (take 5 urls) (get_pricing_data self domain name) \<and>
        first_accepted_wins self urls (get_pricing_data_main_failed self domain name)) \<and>
   (\<forall>u. accepted self u \<longleftrightarrow>
      (\<exists>content pricing_data plans.
         self_extract_pricing_content self u = Inr content \<and> \<not> skip_content content \<and>
         self_analyze_pricing_with_ai self content u = Inr pricing_data \<and>
         map_of pricing_data ''plans'' = Some plans \<and> nonempty_sized plans))"
proof
  show "case self_find_pricing_routes self domain of
      Inl e \<Rightarrow>
        get_pricing_data self domain name =
          (failure_record name domain (''Error finding pricing routes: '' @ str_exn e), []) \<and>
        get_pricing_data_main_failed self domain name =
          (failure_record name domain (''Error finding pricing routes: '' @ str_exn e), [])
    | Inr urls \<Rightarrow>
        first_accepted_wins self (take 5 urls) (get_pricing_data self domain name) \<and>
        first_accepted_wins self urls (get_pricing_data_main_failed self domain name)"
  proof (cases "self_find_pricing_routes self domain")
    case (Inl e)
    then show ?thesis
      by (simp add: get_pricing_data_def get_pricing_data_main_failed_def)
  next
    case (Inr urls)
    have r: "fst (get_pricing_data self domain name) =
        (if take 5 urls = [] then failure_record name domain ''No pricing pages found''
         else (case fst (try_urls self domain name (take 5 urls)) of
            None \<Rightarrow> all_failed_record name domain (take 5 urls) | Some r \<Rightarrow> r))"
      using get_pricing_data_result[OF Inr, of name] by auto
    have c: "snd (get_pricing_data self domain name) = snd (try_urls self domain name (take 5 urls))"
      using Inr by (simp add: get_pricing_data_calls)
    have r': "fst (get_pricing_data_main_failed self domain name) =
        (if urls = [] then failure_record name domain ''No pricing pages found''
         else (case fst (try_urls self domain name urls) of
            None \<Rightarrow> all_failed_record name domain urls | Some r \<Rightarrow> r))"
      using get_pricing_data_main_failed_result[OF Inr, of name] by auto
    have c': "snd (get_pricing_data_main_failed self domain name) = snd (try_urls self domain name urls)"
      using Inr by (simp add: get_pricing_data_main_failed_calls)
    from loop_first_accepted[OF r c] loop_first_accepted[OF r' c'] Inr
    show ?thesis by simp
  qed
next
  show "\<forall>u. accepted self u \<longleftrightarrow>
      (\<exists>content pricing_data plans.
         self_extract_pricing_content self u = Inr content \<and> \<not> skip_content content \<and>
         self_analyze_pricing_with_ai self content u = Inr pricing_data \<and>
         map_of pricing_data ''plans'' = Some plans \<and> nonempty_sized plans)"
    using accepted_iff by blast
qed

text \<open>The loop over a list \<open>us\<close> of candidates that honour the contract on \<^verbatim>\<open>plans\<close>.\<close>

lemma loop_first_match:
  assumes contract: "\<forall>u \<in> set us. plans_is_list self u"
      and res: "fst out = (if us = [] then failure_record n d ''No pricing pages found''
                  else (case fst (try_urls self d n us) of
                          None \<Rightarrow> all_failed_record n d us | Some r \<Rightarrow> r))"
      and calls: "snd out = snd (try_urls self d n us)"
  shows "first_match_wins self us out"
proof -
  have eq: "\<And>u. u \<in> set us \<Longrightarrow> accepted self u = yields_plans self u"
    using contract accepted_yields by blast
  have f: "find (accepted self) us = find (yields_plans self) us"
    by (rule find_cong) (simp_all add: eq)
  have t: "takeWhile (\<lambda>v. \<not> accepted self v) us = takeWhile (\<lambda>v. \<not> yields_plans self v) us"
    by (rule takeWhile_cong) (simp_all add: eq)
  have ex: "extracted (snd out) = tried_urls self us"
    by (simp add: calls extracted_try_urls)
  have p: "prefix (extracted (snd out)) us"
    by (simp add: ex tried_urls_prefix)
  have s: "subseq (map snd (analyzed (snd out))) (extracted (snd out))"
    by (simp add: calls analyzed_try_urls extracted_try_urls analysis_input_urls)
  show ?thesis
  proof (cases "find (yields_plans self) us")
    case None
    with f have n: "find (accepted self) us = None" by simp
    then have "fst (try_urls self d n us) = None" by (simp add: try_urls_result)
    with res have "map_of (fst out) ''success'' = Some (JBool False)"
      by (simp add: failure_record_def all_failed_record_def)
    moreover from n have "extracted (snd out) = us" by (simp add: ex tried_urls_def)
    ultimately show ?thesis using None p s by (simp add: first_match_wins_def)
  next
    case (Some u)
    with f have h: "find (accepted self) us = Some u" by simp
    then have acc: "accepted self u" and ne: "us \<noteq> []" by (auto simp: find_Some_iff)
    from try_url_success[OF acc] obtain pd c where
      "fst (try_url self d n u) = Some (success_record pd n d u c)" by blast
    with h have "fst (try_urls self d n us) = Some (success_record pd n d u c)"
      by (simp add: try_urls_result)
    with res ne have "fst out = success_record pd n d u c" by simp
    then have "map_of (fst out) ''success'' = Some (JBool True)"
          and "map_of (fst out) ''source_url'' = Some (JStr u)"
      by (simp_all add: map_of_success_record)
    moreover from h t have "extracted (snd out) = takeWhile (\<lambda>v. \<not> yields_plans self v) us @ [u]"
      by (simp add: ex tried_urls_def)
    ultimately show ?thesis using Some p s by (simp add: first_match_wins_def)
  qed
qed

text \<open>
  In the words of the specification. Let the ranker return the list \<open>urls\<close>, and let the
  analysis of every candidate honour the schema (\<^verbatim>\<open>plans\<close>, when present, is a list). Then
  \<^verbatim>\<open>get_pricing_data\<close> of \<^verbatim>\<open>main.py\<close> is first-match-wins over the first 5 URLs: it returns a
  success record whose \<^verbatim>\<open>source_url\<close> is the first candidate whose content passes the skip
  filter and whose analysis yields a non-empty plans list, the extractor calls ending with
  that candidate; if there is none among the first 5, it returns a failure after
  extracting all of them. The variant of \<^verbatim>\<open>main_failed.py\<close> is first-match-wins over the
  whole list.
\<close>

theorem get_pricing_data_first_match:
  assumes routes: "self_find_pricing_routes self domain = Inr urls"
      and contract: "\<forall>u \<in> set urls. plans_is_list self u"
  shows "first_match_wins self (take 5 urls) (get_pricing_data self domain name) \<and>
         first_match_wins self urls (get_pricing_data_main_failed self domain name)"
proof
  have c5: "\<forall>u \<in> set (take 5 urls). plans_is_list self u"
    using contract by (meson in_set_takeD)
  have r: "fst (get_pricing_data self domain name) =
      (if take 5 urls = [] then failure_record name domain ''No pricing pages found''
       else (case fst (try_urls self domain name (take 5 urls)) of
          None \<Rightarrow> all_failed_record name domain (take 5 urls) | Some r \<Rightarrow> r))"
    using get_pricing_data_result[OF routes, of name] by auto
  have c: "snd (get_pricing_data self domain name) = snd (try_urls self domain name (take 5 urls))"
    using routes by (simp add: get_pricing_data_calls)
  show "first_match_wins self (take 5 urls) (get_pricing_data self domain name)"
    by (rule loop_first_match[OF c5 r c])
next
  have r: "fst (get_pricing_data_main_failed self domain name) =
      (if urls = [] then failure_record name domain ''No pricing pages found''
       else (case fst (try_urls self domain name urls) of
          None \<Rightarrow> all_failed_record name domain urls | Some r \<Rightarrow> r))"
    using get_pricing_data_main_failed_result[OF routes, of name] by auto
  have c: "snd (get_pricing_data_main_failed self domain name) = snd (try_urls self domain name urls)"
    using routes by (simp add: get_pricing_data_main_failed_calls)
  show "first_match_wins self urls (get_pricing_data_main_failed self domain name)"
    by (rule loop_first_match[OF contract r c])
qed





subsection \<open>The example site\<close>

lemma ex_err: "py_in ''Error'' (replicate 100 CHR ''x'' @ ''Error'')"
  by code_simp

lemma ex_ok: "\<not> py_in ''Error'' (replicate 500 CHR ''x'')"
  by code_simp

lemma ex_gpd_calls: "snd (get_pricing_data example_extractor ''https://acme.test'' ''Acme'') =
  [Extract ''https://acme.test/about'', Extract ''https://acme.test/pricing'', Analyze (replicate 500 CHR ''x'') ''https://acme.test/pricing'']"
  by (simp add: get_pricing_data_def example_extractor_def try_ranked_def try_url_def skip_content_def plans_accepted_def ex_err ex_ok)

theorem get_pricing_data_first_match_witness:
  "self_find_pricing_routes example_extractor ''https://acme.test'' =
     Inr [''https://acme.test/about'', ''https://acme.test/pricing'', ''https://acme.test/plans''] \<and>
   plans_is_list example_extractor ''https://acme.test/about'' \<and>
   plans_is_list example_extractor ''https://acme.test/pricing'' \<and>
   plans_is_list example_extractor ''https://acme.test/plans'' \<and>
   find (yields_plans example_extractor)
     [''https://acme.test/about'', ''https://acme.test/pricing'', ''https://acme.test/plans'']
     = Some ''https://acme.test/pricing'' \<and>
   map_of (fst (get_pricing_data example_extractor ''https://acme.test'' ''Acme'')) ''source_url''
     = Some (JStr ''https://acme.test/pricing'') \<and>
   extracted (snd (get_pricing_data example_extractor ''https://acme.test'' ''Acme''))
     = [''https://acme.test/about'', ''https://acme.test/pricing'']"
proof -
  have r: "self_find_pricing_routes example_extractor ''https://acme.test'' =
     Inr [''https://acme.test/about'', ''https://acme.test/pricing'', ''https://acme.test/plans'']"
    by (simp add: example_extractor_def)
  have p: "plans_is_list example_extractor ''https://acme.test/about''"
      "plans_is_list example_extractor ''https://acme.test/pricing''"
      "plans_is_list example_extractor ''https://acme.test/plans''"
    by (simp_all add: plans_is_list_def example_extractor_def)
  then have c: "\<forall>u \<in> set [''https://acme.test/about'', ''https://acme.test/pricing'', ''https://acme.test/plans'']. plans_is_list example_extractor u"
    by simp
  have f: "find (yields_plans example_extractor)
     [''https://acme.test/about'', ''https://acme.test/pricing'', ''https://acme.test/plans'']
     = Some ''https://acme.test/pricing''"
    by (simp add: yields_plans_def example_extractor_def skip_content_def nonempty_plans_list_def ex_err ex_ok)
  have y: "takeWhile (\<lambda>v. \<not> yields_plans example_extractor v)
     [''https://acme.test/about'', ''https://acme.test/pricing'', ''https://acme.test/plans'']
     = [''https://acme.test/about'']"
    by (simp add: yields_plans_def example_extractor_def skip_content_def nonempty_plans_list_def ex_err ex_ok)
  from get_pricing_data_first_match[OF r c, of "''Acme''"] f y r p show ?thesis
    by (simp add: first_match_wins_def)
qed

theorem analyzer_called_iff_content_passes_witness:
  "''https://acme.test/about'' \<in> set (extracted (snd (get_pricing_data example_extractor ''https://acme.test'' ''Acme''))) \<and>
   self_extract_pricing_content example_extractor ''https://acme.test/about'' = Inr (replicate 100 CHR ''x'' @ ''Error'') \<and>
   py_in ''Error'' (replicate 100 CHR ''x'' @ ''Error'') \<and>
   (replicate 100 CHR ''x'' @ ''Error'', ''https://acme.test/about'')
      \<notin> set (analyzed (snd (get_pricing_data example_extractor ''https://acme.test'' ''Acme''))) \<and>
   ''https://acme.test/pricing'' \<in> set (extracted (snd (get_pricing_data example_extractor ''https://acme.test'' ''Acme''))) \<and>
   self_extract_pricing_content example_extractor ''https://acme.test/pricing'' = Inr (replicate 500 CHR ''x'') \<and>
   (replicate 500 CHR ''x'', ''https://acme.test/pricing'')
      \<in> set (analyzed (snd (get_pricing_data example_extractor ''https://acme.test'' ''Acme'')))"
proof -
  have e1: "''https://acme.test/about'' \<in> set (extracted (snd (get_pricing_data example_extractor ''https://acme.test'' ''Acme'')))"
   and e2: "''https://acme.test/pricing'' \<in> set (extracted (snd (get_pricing_data example_extractor ''https://acme.test'' ''Acme'')))"
    by (simp_all add: ex_gpd_calls)
  have c1: "self_extract_pricing_content example_extractor ''https://acme.test/about'' = Inr (replicate 100 CHR ''x'' @ ''Error'')"
   and c2: "self_extract_pricing_content example_extractor ''https://acme.test/pricing'' = Inr (replicate 500 CHR ''x'')"
    by (simp_all add: example_extractor_def)
  have err: "py_in ''Error'' (replicate 100 CHR ''x'' @ ''Error'')"
    by code_simp
  have ok: "\<not> py_in ''Error'' (replicate 500 CHR ''x'')"
    by code_simp
  from analyzer_called_iff_content_passes[of example_extractor "''https://acme.test''" "''Acme''"]
    e1 e2 c1 c2 err ok
  show ?thesis by simp
qed

lemma example_accepted:
  "\<not> accepted example_extractor ''https://acme.test/about''"
  "accepted example_extractor ''https://acme.test/pricing''"
  by (simp_all add: accepted_def example_extractor_def skip_content_def plans_accepted_def
      ex_err ex_ok)

theorem get_pricing_data_first_accepted_witness:
  "self_find_pricing_routes example_extractor ''https://acme.test'' =
     Inr [''https://acme.test/about'', ''https://acme.test/pricing'', ''https://acme.test/plans''] \<and>
   find (accepted example_extractor)
     [''https://acme.test/about'', ''https://acme.test/pricing'', ''https://acme.test/plans'']
     = Some ''https://acme.test/pricing'' \<and>
   map_of (fst (get_pricing_data example_extractor ''https://acme.test'' ''Acme'')) ''success''
     = Some (JBool True) \<and>
   map_of (fst (get_pricing_data example_extractor ''https://acme.test'' ''Acme'')) ''source_url''
     = Some (JStr ''https://acme.test/pricing'') \<and>
   extracted (snd (get_pricing_data example_extractor ''https://acme.test'' ''Acme''))
     = [''https://acme.test/about'', ''https://acme.test/pricing''] \<and>
   extracted (snd (get_pricing_data_main_failed example_extractor ''https://acme.test'' ''Acme''))
     = [''https://acme.test/about'', ''https://acme.test/pricing'']"
proof -
  have r: "self_find_pricing_routes example_extractor ''https://acme.test'' =
     Inr [''https://acme.test/about'', ''https://acme.test/pricing'', ''https://acme.test/plans'']"
    by (simp add: example_extractor_def)
  have f: "find (accepted example_extractor)
     [''https://acme.test/about'', ''https://acme.test/pricing'', ''https://acme.test/plans'']
     = Some ''https://acme.test/pricing''"
    by (simp add: example_accepted)
  have t: "takeWhile (\<lambda>v. \<not> accepted example_extractor v)
     [''https://acme.test/about'', ''https://acme.test/pricing'', ''https://acme.test/plans'']
     = [''https://acme.test/about'']"
    by (simp add: example_accepted)
  from get_pricing_data_first_accepted[of example_extractor "''https://acme.test''" "''Acme''"]
  have "first_accepted_wins example_extractor
      (take 5 [''https://acme.test/about'', ''https://acme.test/pricing'', ''https://acme.test/plans''])
      (get_pricing_data example_extractor ''https://acme.test'' ''Acme'') \<and>
    first_accepted_wins example_extractor
      [''https://acme.test/about'', ''https://acme.test/pricing'', ''https://acme.test/plans'']
      (get_pricing_data_main_failed example_extractor ''https://acme.test'' ''Acme'')"
    by (simp add: r)
  with r f t show ?thesis by (simp add: first_accepted_wins_def)
qed

text \<open>
  The claim as stated fails: the analysis of the first page returns the string \<^verbatim>\<open>n/a\<close>
  under \<^verbatim>\<open>plans\<close>, which is no plans list, and the second page yields a plans list. The
  first candidate whose analysis yields a non-empty plans list is the second page, but
  \<^verbatim>\<open>get_pricing_data\<close> returns a success whose \<^verbatim>\<open>source_url\<close> is the first page and never
  extracts the second.
\<close>

theorem get_pricing_data_first_accepted_counterexample:
  "self_find_pricing_routes string_plans_extractor ''https://acme.test''
     = Inr [''https://acme.test/about'', ''https://acme.test/pricing''] \<and>
   \<not> yields_plans string_plans_extractor ''https://acme.test/about'' \<and>
   find (yields_plans string_plans_extractor)
     [''https://acme.test/about'', ''https://acme.test/pricing'']
     = Some ''https://acme.test/pricing'' \<and>
   get_pricing_data string_plans_extractor ''https://acme.test'' ''Acme'' =
     ([(''plans'', JStr ''n/a''), (''name'', JStr ''Acme''), (''domain'', JStr ''https://acme.test''),
       (''source_url'', JStr ''https://acme.test/about''), (''success'', JBool True),
       (''content_length'', JNum 500)],
      [Extract ''https://acme.test/about'',
       Analyze (replicate 500 CHR ''x'') ''https://acme.test/about'']) \<and>
   get_pricing_data_main_failed string_plans_extractor ''https://acme.test'' ''Acme'' =
     get_pricing_data string_plans_extractor ''https://acme.test'' ''Acme''"
proof -
  have r: "self_find_pricing_routes string_plans_extractor ''https://acme.test''
     = Inr [''https://acme.test/about'', ''https://acme.test/pricing'']"
    by (simp add: string_plans_extractor_def)
  have y: "\<not> yields_plans string_plans_extractor ''https://acme.test/about''"
    "yields_plans string_plans_extractor ''https://acme.test/pricing''"
    by (simp_all add: yields_plans_def string_plans_extractor_def skip_content_def
        nonempty_plans_list_def ex_ok)
  have g: "get_pricing_data string_plans_extractor ''https://acme.test'' ''Acme'' =
     ([(''plans'', JStr ''n/a''), (''name'', JStr ''Acme''), (''domain'', JStr ''https://acme.test''),
       (''source_url'', JStr ''https://acme.test/about''), (''success'', JBool True),
       (''content_length'', JNum 500)],
      [Extract ''https://acme.test/about'',
       Analyze (replicate 500 CHR ''x'') ''https://acme.test/about''])"
    by (simp add: get_pricing_data_def string_plans_extractor_def try_ranked_def try_url_def
        skip_content_def plans_accepted_def success_record_def dict_update_def ex_ok)
  have m: "get_pricing_data_main_failed string_plans_extractor ''https://acme.test'' ''Acme'' =
     ([(''plans'', JStr ''n/a''), (''name'', JStr ''Acme''), (''domain'', JStr ''https://acme.test''),
       (''source_url'', JStr ''https://acme.test/about''), (''success'', JBool True),
       (''content_length'', JNum 500)],
      [Extract ''https://acme.test/about'',
       Analyze (replicate 500 CHR ''x'') ''https://acme.test/about''])"
    by (simp add: get_pricing_data_main_failed_def string_plans_extractor_def try_ranked_def
        try_url_def skip_content_def plans_accepted_def success_record_def dict_update_def ex_ok)
  from r y g m show ?thesis by simp
qed
subsection \<open>The batch loop\<close>



lemma checkpoints_append: "checkpoints (xs @ ys) = checkpoints xs @ checkpoints ys"
  by (induction xs rule: checkpoints.induct) auto

lemma save_calls_append: "save_calls (xs @ ys) = save_calls xs @ save_calls ys"
  by (induction xs rule: save_calls.induct) auto

lemma save_checkpoint_cases:
  "save_checkpoint wr r p t =
     Saved \<lparr> cp_results = r, cp_processed_count = p, cp_total_count = t \<rparr> \<or>
   (\<exists>e. save_checkpoint wr r p t =
     SaveFailed \<lparr> cp_results = r, cp_processed_count = p, cp_total_count = t \<rparr> e)"
  by (simp add: save_checkpoint_def Let_def split: option.splits)

lemma progress_names_save [simp]: "progress_names (save_checkpoint wr r p t # es) = progress_names es"
  using save_checkpoint_cases[of wr r p t] by auto

lemma invoked_names_save [simp]: "invoked_names (save_checkpoint wr r p t # es) = invoked_names es"
  using save_checkpoint_cases[of wr r p t] by auto

lemma save_calls_save [simp]:
  "save_calls (save_checkpoint wr r p t # es) =
     \<lparr> cp_results = r, cp_processed_count = p, cp_total_count = t \<rparr> # save_calls es"
  using save_checkpoint_cases[of wr r p t] by auto

lemma checkpoints_save:
  "checkpoints (save_checkpoint wr r p t # es) =
     (if wr \<lparr> cp_results = r, cp_processed_count = p, cp_total_count = t \<rparr> = None
      then \<lparr> cp_results = r, cp_processed_count = p, cp_total_count = t \<rparr> # checkpoints es
      else checkpoints es)"
  by (auto simp: save_checkpoint_def Let_def split: option.splits)

lemma process_item_empty:
  assumes "website_empty (item_website item)"
  shows "process_item wr g pc tc results i item =
     (AList.update (item_name item) [(''error'', JStr ''Empty URL''), (''success'', JBool False)] results,
      [Processing (pc + i + 1) tc (item_name item),
       save_checkpoint wr
         (AList.update (item_name item)
            [(''error'', JStr ''Empty URL''), (''success'', JBool False)] results)
         (pc + i + 1) tc])"
  using assms by (simp add: process_item_def Let_def)

lemma process_item_other:
  "k \<noteq> item_name item \<Longrightarrow> map_of (fst (process_item wr g pc tc results i item)) k = map_of results k"
  by (auto simp: process_item_def Let_def update_conv' split: sum.splits)



lemma process_item_count:
  "map cp_processed_count (save_calls (snd (process_item wr g pc tc results i item))) = [pc + i + 1]"
  by (auto simp: process_item_def Let_def split: sum.splits)

lemma process_item_written:
  "checkpoints (snd (process_item wr g pc tc results i item)) =
     filter (\<lambda>c. wr c = None) (save_calls (snd (process_item wr g pc tc results i item)))"
  by (auto simp: process_item_def Let_def checkpoints_save split: sum.splits)




lemma process_items_counts:
  "map cp_processed_count (save_calls (snd (process_items wr g pc tc results i items))) =
     map (\<lambda>j. pc + j + 1) [i..<i + length items]"
proof (induction items arbitrary: results i)
  case Nil
  then show ?case by simp
next
  case (Cons item items)
  obtain r1 e1 where s: "process_item wr g pc tc results i item = (r1, e1)"
    by (cases "process_item wr g pc tc results i item")
  obtain r2 e2 where t: "process_items wr g pc tc r1 (i + 1) items = (r2, e2)"
    by (cases "process_items wr g pc tc r1 (i + 1) items")
  from process_item_count[of wr g pc tc results i item] s
  have a: "map cp_processed_count (save_calls e1) = [pc + i + 1]" by simp
  from Cons.IH[of r1 "i + 1"] t
  have b: "map cp_processed_count (save_calls e2) = map (\<lambda>j. pc + j + 1) [i + 1..<i + 1 + length items]"
    by simp
  have "[i..<i + length (item # items)] = i # [i + 1..<i + 1 + length items]"
    using upt_conv_Cons[of i "i + 1 + length items"] by simp
  with a b s t show ?case by (simp add: save_calls_append)
qed

lemma process_items_written:
  "checkpoints (snd (process_items wr g pc tc results i items)) =
     filter (\<lambda>c. wr c = None) (save_calls (snd (process_items wr g pc tc results i items)))"
proof (induction items arbitrary: results i)
  case Nil
  then show ?case by simp
next
  case (Cons item items)
  obtain r1 e1 where s: "process_item wr g pc tc results i item = (r1, e1)"
    by (cases "process_item wr g pc tc results i item")
  obtain r2 e2 where t: "process_items wr g pc tc r1 (i + 1) items = (r2, e2)"
    by (cases "process_items wr g pc tc r1 (i + 1) items")
  from process_item_written[of wr g pc tc results i item] s
  have a: "checkpoints e1 = filter (\<lambda>c. wr c = None) (save_calls e1)" by simp
  from Cons.IH[of r1 "i + 1"] t
  have b: "checkpoints e2 = filter (\<lambda>c. wr c = None) (save_calls e2)" by simp
  from a b s t show ?case by (simp add: checkpoints_append save_calls_append)
qed



text \<open>
  Claim C8, as the code has it. For a row whose website is missing, empty or only
  whitespace, the loop body stores the failure record
  \<^verbatim>\<open>{"error": "Empty URL", "success": False}\<close> under the row's name and calls
  \<^verbatim>\<open>save_checkpoint\<close> once, with these results and \<^verbatim>\<open>processed_count + i + 1\<close>; it does so
  whatever \<^verbatim>\<open>get_pricing_data\<close> would do, and without calling it. The checkpoints written to
  the file are those calls whose write did not raise: a write that raises is swallowed and
  leaves no checkpoint. Over the whole loop the calls of \<^verbatim>\<open>save_checkpoint\<close> carry
  \<^verbatim>\<open>processed_count + 1\<close>, \<^verbatim>\<open>processed_count + 2\<close>, ...: each row, skipped or not, adds one.
\<close>

theorem empty_website_skipped:
  assumes "website_empty (item_website item)"
  shows "process_item write_file get_data pc tc results i item =
     (AList.update (item_name item) [(''error'', JStr ''Empty URL''), (''success'', JBool False)] results,
      [Processing (pc + i + 1) tc (item_name item),
       save_checkpoint write_file
         (AList.update (item_name item)
            [(''error'', JStr ''Empty URL''), (''success'', JBool False)] results)
         (pc + i + 1) tc]) \<and>
   map_of (fst (process_item write_file get_data pc tc results i item)) (item_name item) =
     Some [(''error'', JStr ''Empty URL''), (''success'', JBool False)] \<and>
   invoked_names (snd (process_item write_file get_data pc tc results i item)) = [] \<and>
   save_calls (snd (process_item write_file get_data pc tc results i item)) =
     [\<lparr> cp_results = AList.update (item_name item)
           [(''error'', JStr ''Empty URL''), (''success'', JBool False)] results,
        cp_processed_count = pc + i + 1, cp_total_count = tc \<rparr>] \<and>
   checkpoints (snd (process_item write_file get_data pc tc results i item)) =
     filter (\<lambda>c. write_file c = None)
       (save_calls (snd (process_item write_file get_data pc tc results i item))) \<and>
   map cp_processed_count (save_calls (snd (process_items write_file get_data pc tc results 0 items))) =
     map (\<lambda>j. pc + j + 1) [0..<length items]"
proof -
  have "checkpoints (snd (process_item write_file get_data pc tc results i item)) =
     filter (\<lambda>c. write_file c = None)
       (save_calls (snd (process_item write_file get_data pc tc results i item)))"
    by (rule process_item_written)
  moreover have "map cp_processed_count
       (save_calls (snd (process_items write_file get_data pc tc results 0 items))) =
     map (\<lambda>j. pc + j + 1) [0..<length items]"
    using process_items_counts[of write_file get_data pc tc results 0 items] by simp
  ultimately show ?thesis
    using assms by (simp add: process_item_empty update_conv')
qed

lemma map_of_dict_update_same:
  "map_of (dict_update d [(k1, v1), (k2, v2), (k3, v3), (k4, v4), (k5, v5)]) k =
     ((((((map_of d)(k1 \<mapsto> v1))(k2 \<mapsto> v2))(k3 \<mapsto> v3))(k4 \<mapsto> v4))(k5 \<mapsto> v5)) k"
  by (simp add: dict_update_def update_conv')

lemma success_record_ok:
  assumes "plans_accepted pd"
  shows "site_record_ok n d (success_record pd n d u c)"
proof -
  from assms obtain plans where "map_of pd ''plans'' = Some plans" and "truthy plans"
    by (auto simp: plans_accepted_def split: option.splits)
  then show ?thesis
    by (simp add: site_record_ok_def stored_ok_def success_record_def map_of_dict_update_same)
qed

lemma try_url_ok:
  "fst (try_url self d n u) = Some r \<Longrightarrow> site_record_ok n d r"
  by (auto simp: try_url_def success_record_ok split: sum.splits if_splits)

lemma try_urls_ok:
  "fst (try_urls self d n us) = Some r \<Longrightarrow> site_record_ok n d r"
proof (induction us)
  case Nil
  then show ?case by simp
next
  case (Cons u us)
  obtain r1 c1 where a: "try_url self d n u = (r1, c1)" by (cases "try_url self d n u")
  obtain r2 c2 where b: "try_urls self d n us = (r2, c2)" by (cases "try_urls self d n us")
  show ?case
  proof (cases r1)
    case None
    with a b Cons.prems have "r2 = Some r" by simp
    with b Cons.IH show ?thesis by simp
  next
    case (Some x)
    with a Cons.prems have "fst (try_url self d n u) = Some r" by simp
    then show ?thesis by (rule try_url_ok)
  qed
qed

lemma failure_record_ok: "site_record_ok n d (failure_record n d msg)"
  by (simp add: site_record_ok_def stored_ok_def failure_record_def)

lemma all_failed_record_ok: "site_record_ok n d (all_failed_record n d us)"
  by (simp add: site_record_ok_def stored_ok_def all_failed_record_def)

lemma try_ranked_ok: "site_record_ok n d (fst (try_ranked self d n us))"
proof (cases "fst (try_urls self d n us)")
  case None
  then show ?thesis
    by (auto simp: try_ranked_def all_failed_record_ok split: prod.splits)
next
  case (Some r)
  from try_urls_ok[OF Some] Some show ?thesis
    by (auto simp: try_ranked_def split: prod.splits)
qed

lemma get_pricing_data_ok: "site_record_ok n d (fst (get_pricing_data self d n))"
  by (auto simp: get_pricing_data_def failure_record_ok try_ranked_ok Let_def split: sum.splits)

lemma site_record_stored: "site_record_ok n d r \<Longrightarrow> stored_ok r"
  by (simp add: site_record_ok_def)

lemma process_item_called:
  assumes "\<not> website_empty (item_website item)"
  shows "map_of (fst (process_item wr g pc tc results i item)) (item_name item) =
     Some (case g (with_scheme (the (item_website item))) (item_name item) of
             Inr pricing_data \<Rightarrow> pricing_data
           | Inl e \<Rightarrow>
               [(''name'', JStr (item_name item)),
                (''website'', JStr (with_scheme (the (item_website item)))),
                (''error'', JStr (''Unexpected error: '' @ str_exn e)),
                (''success'', JBool False)])"
  using assms by (simp add: process_item_def Let_def update_conv' split: sum.splits)

lemma run_site_stored:
  "stored_ok (case run_site self escapes w n of
             Inr pricing_data \<Rightarrow> pricing_data
           | Inl e \<Rightarrow>
               [(''name'', JStr n), (''website'', JStr w),
                (''error'', JStr (''Unexpected error: '' @ str_exn e)),
                (''success'', JBool False)])"
proof (cases "escapes w n")
  case None
  then show ?thesis
    using site_record_stored[OF get_pricing_data_ok[of n w self]]
    by (simp add: run_site_def)
next
  case (Some e)
  then show ?thesis by (simp add: run_site_def stored_ok_def)
qed

lemma process_item_stored:
  "\<exists>r. map_of (fst (process_item wr (run_site self escapes) pc tc results i item)) (item_name item) = Some r
       \<and> stored_ok r"
proof (cases "website_empty (item_website item)")
  case True
  then show ?thesis
    by (simp add: process_item_empty update_conv' stored_ok_def)
next
  case False
  from process_item_called[OF False] run_site_stored show ?thesis
    by simp
qed

lemma process_items_stored:
  "map_of (fst (process_items wr (run_site self escapes) pc tc results i items)) k = map_of results k \<or>
   (\<exists>r. map_of (fst (process_items wr (run_site self escapes) pc tc results i items)) k = Some r
        \<and> stored_ok r)"
proof (induction items arbitrary: results i)
  case Nil
  then show ?case by simp
next
  case (Cons item items)
  let ?g = "run_site self escapes"
  obtain r1 e1 where s: "process_item wr ?g pc tc results i item = (r1, e1)"
    by (cases "process_item wr ?g pc tc results i item")
  obtain r2 e2 where t: "process_items wr ?g pc tc r1 (i + 1) items = (r2, e2)"
    by (cases "process_items wr ?g pc tc r1 (i + 1) items")
  have fin: "fst (process_items wr ?g pc tc results i (item # items)) = r2"
    using s t by simp
  from Cons.IH[of r1 "i + 1"] t
  have ih: "map_of r2 k = map_of r1 k \<or> (\<exists>r. map_of r2 k = Some r \<and> stored_ok r)" by simp
  show ?case
  proof (cases "k = item_name item")
    case True
    from process_item_stored[of wr self escapes pc tc results i item] s True
    have "\<exists>r. map_of r1 k = Some r \<and> stored_ok r" by simp
    with ih have "\<exists>r. map_of r2 k = Some r \<and> stored_ok r" by auto
    with fin show ?thesis by simp
  next
    case False
    from process_item_other[OF False, of wr ?g pc tc results i] s
    have "map_of r1 k = map_of results k" by simp
    with ih fin show ?thesis by auto
  qed
qed

lemma try_url_accepted:
  assumes "accepted self u"
  shows "\<exists>content pd.
     self_extract_pricing_content self u = Inr content \<and>
     self_analyze_pricing_with_ai self content u = Inr pd \<and>
     plans_accepted pd \<and>
     fst (try_url self d n u) = Some (success_record pd n d u content)"
  using assms by (auto simp: accepted_def try_url_def split: sum.splits)

lemma success_record_fields:
  "map_of (success_record pd n d u c) ''name'' = Some (JStr n)"
  "map_of (success_record pd n d u c) ''domain'' = Some (JStr d)"
  "map_of (success_record pd n d u c) ''content_length'' = Some (JNum (int (length c)))"
  "map_of (success_record pd n d u c) ''plans'' = map_of pd ''plans''"
  "map_of (success_record pd n d u c) ''currency'' = map_of pd ''currency''"
  by (simp_all add: success_record_def map_of_dict_update_same)

lemma site_success_fields:
  assumes routes: "self_find_pricing_routes self d = Inr urls"
      and hit: "find (accepted self) (take 5 urls) = Some u"
  shows "\<exists>content pd.
     self_extract_pricing_content self u = Inr content \<and>
     self_analyze_pricing_with_ai self content u = Inr pd \<and>
     plans_accepted pd \<and>
     fst (get_pricing_data self d n) = success_record pd n d u content"
proof -
  from hit have acc: "accepted self u" and ne: "urls \<noteq> []" by (auto simp: find_Some_iff)
  from try_url_accepted[OF acc, of d n] obtain content pd where
    c: "self_extract_pricing_content self u = Inr content"
    and a: "self_analyze_pricing_with_ai self content u = Inr pd"
    and p: "plans_accepted pd"
    and t: "fst (try_url self d n u) = Some (success_record pd n d u content)" by blast
  from hit t have "fst (try_urls self d n (take 5 urls)) = Some (success_record pd n d u content)"
    by (simp add: try_urls_result)
  with ne have "fst (get_pricing_data self d n) = success_record pd n d u content"
    by (simp add: get_pricing_data_result[OF routes])
  with c a p show ?thesis by blast
qed

lemma site_failure_record:
  assumes routes: "self_find_pricing_routes self d = Inr urls"
      and miss: "find (accepted self) (take 5 urls) = None"
  shows "fst (get_pricing_data self d n) =
     (if urls = [] then failure_record n d ''No pricing pages found''
      else all_failed_record n d (take 5 urls))"
proof -
  from miss have "fst (try_urls self d n (take 5 urls)) = None"
    by (simp add: try_urls_result)
  then show ?thesis by (simp add: get_pricing_data_result[OF routes])
qed

lemma site_routes_failed:
  assumes "self_find_pricing_routes self d = Inl e"
  shows "fst (get_pricing_data self d n) =
     failure_record n d (''Error finding pricing routes: '' @ str_exn e)"
  using assms by (simp add: get_pricing_data_def)

lemma process_item_run_site:
  "map_of (fst (process_item wr (run_site self escapes) pc tc results i item)) (item_name item) =
     Some (if website_empty (item_website item)
           then [(''error'', JStr ''Empty URL''), (''success'', JBool False)]
           else (case escapes (with_scheme (the (item_website item))) (item_name item) of
                   Some e \<Rightarrow>
                     [(''name'', JStr (item_name item)),
                      (''website'', JStr (with_scheme (the (item_website item)))),
                      (''error'', JStr (''Unexpected error: '' @ str_exn e)),
                      (''success'', JBool False)]
                 | None \<Rightarrow>
                     fst (get_pricing_data self (with_scheme (the (item_website item)))
                            (item_name item))))"
proof (cases "website_empty (item_website item)")
  case True
  then show ?thesis by (simp add: process_item_empty update_conv')
next
  case False
  from process_item_called[OF False, of wr "run_site self escapes" pc tc results i] False
  show ?thesis by (simp add: run_site_def split: option.splits)
qed

text \<open>
  Claim C9, as the code has it. Let \<open>r\<close> be the record \<^verbatim>\<open>get_pricing_data(domain, name)\<close>
  returns. It has that \<^verbatim>\<open>name\<close>, that \<^verbatim>\<open>domain\<close> and a boolean \<^verbatim>\<open>success\<close>. When \<^verbatim>\<open>success\<close> is
  true, \<^verbatim>\<open>source_url\<close> is the first accepted URL among the first 5, \<^verbatim>\<open>content_length\<close> the
  length of its content, and \<^verbatim>\<open>plans\<close> and \<^verbatim>\<open>currency\<close> are the entries of the analyzer's
  output for it: \<^verbatim>\<open>plans\<close> is there and true as a Python condition, \<^verbatim>\<open>currency\<close> is there
  exactly when the analyzer returned one. When \<^verbatim>\<open>success\<close> is false, \<^verbatim>\<open>error\<close> is a string, and
  \<^verbatim>\<open>attempted_urls\<close> is there exactly when the ranker returned a non-empty list: it is then
  the list of the URLs tried, the first 5. The batch loop stores under the name of a row
  the record \<^verbatim>\<open>{error, success}\<close> when the website is empty, the record
  \<^verbatim>\<open>{name, website, error, success}\<close> when an exception escapes \<^verbatim>\<open>get_pricing_data\<close>, and
  the record \<^verbatim>\<open>get_pricing_data\<close> returned otherwise; so every record it stores, under any
  key, has a boolean \<^verbatim>\<open>success\<close>, and \<^verbatim>\<open>error\<close> when \<^verbatim>\<open>success\<close> is false.
\<close>

theorem stored_records_fields:
  assumes r: "r = fst (get_pricing_data self domain name)"
  shows "map_of r ''name'' = Some (JStr name) \<and>
   map_of r ''domain'' = Some (JStr domain) \<and>
   (map_of r ''success'' = Some (JBool True) \<or> map_of r ''success'' = Some (JBool False)) \<and>
   (map_of r ''success'' = Some (JBool True) \<longrightarrow>
      (\<exists>urls u content pd plans.
         self_find_pricing_routes self domain = Inr urls \<and>
         find (accepted self) (take 5 urls) = Some u \<and>
         self_extract_pricing_content self u = Inr content \<and>
         self_analyze_pricing_with_ai self content u = Inr pd \<and>
         map_of r ''source_url'' = Some (JStr u) \<and>
         map_of r ''content_length'' = Some (JNum (int (length content))) \<and>
         map_of r ''plans'' = Some plans \<and> map_of pd ''plans'' = Some plans \<and> truthy plans \<and>
         map_of r ''currency'' = map_of pd ''currency'')) \<and>
   (map_of r ''success'' = Some (JBool False) \<longrightarrow>
      (\<exists>msg. map_of r ''error'' = Some (JStr msg)) \<and>
      map_of r ''attempted_urls'' =
        (case self_find_pricing_routes self domain of
           Inl e \<Rightarrow> None
         | Inr urls \<Rightarrow> if urls = [] then None else Some (JArr (map JStr (take 5 urls))))) \<and>
   map_of (fst (process_item write_file (run_site self escapes) pc tc results i item)) (item_name item) =
     Some (if website_empty (item_website item)
           then [(''error'', JStr ''Empty URL''), (''success'', JBool False)]
           else (case escapes (with_scheme (the (item_website item))) (item_name item) of
                   Some e \<Rightarrow>
                     [(''name'', JStr (item_name item)),
                      (''website'', JStr (with_scheme (the (item_website item)))),
                      (''error'', JStr (''Unexpected error: '' @ str_exn e)),
                      (''success'', JBool False)]
                 | None \<Rightarrow>
                     fst (get_pricing_data self (with_scheme (the (item_website item)))
                            (item_name item)))) \<and>
   (\<forall>k. map_of (fst (process_items write_file (run_site self escapes) pc tc results i items)) k
          = map_of results k \<or>
        (\<exists>r'. map_of (fst (process_items write_file (run_site self escapes) pc tc results i items)) k
                 = Some r' \<and> stored_ok r'))"
proof -
  have site: "map_of r ''name'' = Some (JStr name) \<and>
   map_of r ''domain'' = Some (JStr domain) \<and>
   (map_of r ''success'' = Some (JBool True) \<or> map_of r ''success'' = Some (JBool False)) \<and>
   (map_of r ''success'' = Some (JBool True) \<longrightarrow>
      (\<exists>urls u content pd plans.
         self_find_pricing_routes self domain = Inr urls \<and>
         find (accepted self) (take 5 urls) = Some u \<and>
         self_extract_pricing_content self u = Inr content \<and>
         self_analyze_pricing_with_ai self content u = Inr pd \<and>
         map_of r ''source_url'' = Some (JStr u) \<and>
         map_of r ''content_length'' = Some (JNum (int (length content))) \<and>
         map_of r ''plans'' = Some plans \<and> map_of pd ''plans'' = Some plans \<and> truthy plans \<and>
         map_of r ''currency'' = map_of pd ''currency'')) \<and>
   (map_of r ''success'' = Some (JBool False) \<longrightarrow>
      (\<exists>msg. map_of r ''error'' = Some (JStr msg)) \<and>
      map_of r ''attempted_urls'' =
        (case self_find_pricing_routes self domain of
           Inl e \<Rightarrow> None
         | Inr urls \<Rightarrow> if urls = [] then None else Some (JArr (map JStr (take 5 urls)))))"
  proof (cases "self_find_pricing_routes self domain")
    case (Inl e)
    from site_routes_failed[OF Inl, of name] r Inl show ?thesis
      by (simp add: failure_record_def)
  next
    case (Inr urls)
    show ?thesis
    proof (cases "find (accepted self) (take 5 urls)")
      case None
      from site_failure_record[OF Inr None, of name] r Inr show ?thesis
        by (simp add: failure_record_def all_failed_record_def)
    next
      case (Some u)
      from site_success_fields[OF Inr Some, of name] obtain content pd where
        c: "self_extract_pricing_content self u = Inr content"
        and a: "self_analyze_pricing_with_ai self content u = Inr pd"
        and p: "plans_accepted pd"
        and g: "fst (get_pricing_data self domain name) = success_record pd name domain u content"
        by blast
      from p obtain plans where pl: "map_of pd ''plans'' = Some plans" and tr: "truthy plans"
        by (auto simp: plans_accepted_def split: option.splits)
      have e: "r = success_record pd name domain u content" using r g by simp
      have t: "map_of r ''success'' = Some (JBool True)"
        and su: "map_of r ''source_url'' = Some (JStr u)"
        by (simp_all add: e map_of_success_record)
      have "\<exists>urls u content pd plans.
         self_find_pricing_routes self domain = Inr urls \<and>
         find (accepted self) (take 5 urls) = Some u \<and>
         self_extract_pricing_content self u = Inr content \<and>
         self_analyze_pricing_with_ai self content u = Inr pd \<and>
         map_of r ''source_url'' = Some (JStr u) \<and>
         map_of r ''content_length'' = Some (JNum (int (length content))) \<and>
         map_of r ''plans'' = Some plans \<and> map_of pd ''plans'' = Some plans \<and> truthy plans \<and>
         map_of r ''currency'' = map_of pd ''currency''"
        using Inr Some c a su pl tr by (auto simp: e success_record_fields)
      with t show ?thesis by (simp add: e success_record_fields)
    qed
  qed
  have stored: "\<forall>k. map_of (fst (process_items write_file (run_site self escapes) pc tc results i items)) k
          = map_of results k \<or>
        (\<exists>r'. map_of (fst (process_items write_file (run_site self escapes) pc tc results i items)) k
                 = Some r' \<and> stored_ok r')"
    using process_items_stored by blast
  from site process_item_run_site[of write_file self escapes pc tc results i item] stored
  show ?thesis by blast
qed

lemma example_blank: "website_empty (Some '' '')"
  by (simp add: website_empty_def py_strip_def is_space_def)


theorem empty_website_skipped_witness:
  "website_empty (item_website \<lparr> item_name = ''Gamma'', item_website = Some '' '' \<rparr>) \<and>
   map_of (fst (process_item file_written (run_site example_extractor no_escape) 1 3
      (cp_results example_checkpoint) 1 \<lparr> item_name = ''Gamma'', item_website = Some '' '' \<rparr>))
      ''Gamma'' = Some [(''error'', JStr ''Empty URL''), (''success'', JBool False)] \<and>
   checkpoints (snd (process_item file_written (run_site example_extractor no_escape) 1 3
      (cp_results example_checkpoint) 1 \<lparr> item_name = ''Gamma'', item_website = Some '' '' \<rparr>)) =
     [\<lparr> cp_results = AList.update ''Gamma''
           [(''error'', JStr ''Empty URL''), (''success'', JBool False)] (cp_results example_checkpoint),
        cp_processed_count = 3, cp_total_count = 3 \<rparr>] \<and>
   invoked_names (snd (process_item file_written (run_site example_extractor no_escape) 1 3
      (cp_results example_checkpoint) 1 \<lparr> item_name = ''Gamma'', item_website = Some '' '' \<rparr>)) = [] \<and>
   map cp_processed_count (save_calls (snd (process_items file_written
      (run_site example_extractor no_escape) 1 3
      (cp_results example_checkpoint) 0 (get_remaining_urls example_rows (cp_results example_checkpoint)))))
     = [2, 3]"
proof -
  have e: "website_empty (item_website \<lparr> item_name = ''Gamma'', item_website = Some '' '' \<rparr>)"
    by (simp add: example_blank)
  have n: "length (get_remaining_urls example_rows (cp_results example_checkpoint)) = 2"
    by (simp add: get_remaining_urls_def example_rows_def example_checkpoint_def)
  have u: "[0..<2] = [0, Suc 0]" by (simp add: upt_conv_Cons)
  from empty_website_skipped[OF e, of file_written "run_site example_extractor no_escape" 1 3
      "cp_results example_checkpoint" 1
      "get_remaining_urls example_rows (cp_results example_checkpoint)"] e
  show ?thesis by (simp add: n u update_conv' checkpoints_save file_written_def numeral_3_eq_3)
qed

lemma example_nbsp: "website_empty (Some [CHR 0xA0])"
  by (simp add: website_empty_def py_strip_def is_space_def)

text \<open>
  The claim as stated fails when the checkpoint file cannot be written: the row with a
  website of one no-break space is skipped and its failure record stored, but no checkpoint
  is written, and the loop goes on.
\<close>

theorem empty_website_skipped_counterexample:
  "website_empty (item_website \<lparr> item_name = ''Gamma'', item_website = Some [CHR 0xA0] \<rparr>) \<and>
   map_of (fst (process_item disk_full (run_site example_extractor no_escape) 1 3
      (cp_results example_checkpoint) 1 \<lparr> item_name = ''Gamma'', item_website = Some [CHR 0xA0] \<rparr>))
      ''Gamma'' = Some [(''error'', JStr ''Empty URL''), (''success'', JBool False)] \<and>
   snd (process_item disk_full (run_site example_extractor no_escape) 1 3
      (cp_results example_checkpoint) 1 \<lparr> item_name = ''Gamma'', item_website = Some [CHR 0xA0] \<rparr>) =
     [Processing 3 3 ''Gamma'',
      SaveFailed
        \<lparr> cp_results = AList.update ''Gamma''
            [(''error'', JStr ''Empty URL''), (''success'', JBool False)] (cp_results example_checkpoint),
          cp_processed_count = 3, cp_total_count = 3 \<rparr>
        (Exn ''[Errno 28] No space left on device'')] \<and>
   checkpoints (snd (process_item disk_full (run_site example_extractor no_escape) 1 3
      (cp_results example_checkpoint) 1 \<lparr> item_name = ''Gamma'', item_website = Some [CHR 0xA0] \<rparr>)) = []"
proof -
  have e: "website_empty (item_website \<lparr> item_name = ''Gamma'', item_website = Some [CHR 0xA0] \<rparr>)"
    by (simp add: example_nbsp)
  show ?thesis
    by (simp add: process_item_empty[OF e] example_nbsp update_conv' save_checkpoint_def disk_full_def)
qed

lemma example_beta:
  "fst (get_pricing_data example_extractor_no_currency ''https://beta.test'' ''Beta'') =
     [(''plans'', JArr [JObj [(''name'', JStr ''Basic'')]]), (''name'', JStr ''Beta''),
      (''domain'', JStr ''https://beta.test''), (''source_url'', JStr ''https://beta.test/pricing''),
      (''success'', JBool True), (''content_length'', JNum 500)]"
  by (simp add: get_pricing_data_def example_extractor_no_currency_def try_ranked_def try_url_def
      skip_content_def plans_accepted_def success_record_def dict_update_def ex_ok)

lemma example_short:
  "fst (get_pricing_data example_extractor_short ''https://beta.test'' ''Beta'') =
     [(''name'', JStr ''Beta''), (''domain'', JStr ''https://beta.test''),
      (''error'', JStr ''All URLs failed to yield valid pricing data''),
      (''attempted_urls'', JArr [JStr ''https://beta.test/pricing'']),
      (''success'', JBool False)]"
  by (simp add: get_pricing_data_def example_extractor_short_def try_ranked_def try_url_def
      skip_content_def all_failed_record_def)

theorem stored_records_fields_witness:
  "map_of (fst (get_pricing_data example_extractor_no_currency ''https://beta.test'' ''Beta'')) ''success''
     = Some (JBool True) \<and>
   map_of (fst (get_pricing_data example_extractor_no_currency ''https://beta.test'' ''Beta'')) ''name''
     = Some (JStr ''Beta'') \<and>
   map_of (fst (get_pricing_data example_extractor_no_currency ''https://beta.test'' ''Beta'')) ''domain''
     = Some (JStr ''https://beta.test'') \<and>
   map_of (fst (get_pricing_data example_extractor_no_currency ''https://beta.test'' ''Beta'')) ''source_url''
     = Some (JStr ''https://beta.test/pricing'') \<and>
   map_of (fst (get_pricing_data example_extractor_no_currency ''https://beta.test'' ''Beta'')) ''content_length''
     = Some (JNum 500) \<and>
   map_of (fst (get_pricing_data example_extractor_no_currency ''https://beta.test'' ''Beta'')) ''plans''
     = Some (JArr [JObj [(''name'', JStr ''Basic'')]]) \<and>
   map_of (fst (get_pricing_data example_extractor_no_currency ''https://beta.test'' ''Beta'')) ''currency''
     = None \<and>
   map_of (fst (get_pricing_data example_extractor_short ''https://beta.test'' ''Beta'')) ''success''
     = Some (JBool False) \<and>
   map_of (fst (get_pricing_data example_extractor_short ''https://beta.test'' ''Beta'')) ''error''
     = Some (JStr ''All URLs failed to yield valid pricing data'') \<and>
   map_of (fst (get_pricing_data example_extractor_short ''https://beta.test'' ''Beta'')) ''attempted_urls''
     = Some (JArr [JStr ''https://beta.test/pricing''])"
proof -
  let ?r = "fst (get_pricing_data example_extractor_no_currency ''https://beta.test'' ''Beta'')"
  let ?f = "fst (get_pricing_data example_extractor_short ''https://beta.test'' ''Beta'')"
  have s: "map_of ?r ''success'' = Some (JBool True)"
    by (simp add: example_beta)
  have f: "map_of ?f ''success'' = Some (JBool False)"
    by (simp add: example_short)
  have a: "self_find_pricing_routes example_extractor_no_currency ''https://beta.test''
      = Inr [''https://beta.test/pricing'']"
    "self_extract_pricing_content example_extractor_no_currency ''https://beta.test/pricing''
      = Inr (replicate 500 CHR ''x'')"
    "self_analyze_pricing_with_ai example_extractor_no_currency (replicate 500 CHR ''x'')
       ''https://beta.test/pricing'' = Inr [(''plans'', JArr [JObj [(''name'', JStr ''Basic'')]])]"
    by (simp_all add: example_extractor_no_currency_def)
  have b: "self_find_pricing_routes example_extractor_short ''https://beta.test''
      = Inr [''https://beta.test/pricing'']"
    by (simp add: example_extractor_short_def)
  from stored_records_fields[of ?r example_extractor_no_currency "''https://beta.test''" "''Beta''"
      file_written no_escape 0 0 "[]" 0 "\<lparr> item_name = ''Beta'', item_website = None \<rparr>" "[]"] s a
  have one: "map_of ?r ''name'' = Some (JStr ''Beta'') \<and>
     map_of ?r ''domain'' = Some (JStr ''https://beta.test'') \<and>
     map_of ?r ''source_url'' = Some (JStr ''https://beta.test/pricing'') \<and>
     map_of ?r ''content_length'' = Some (JNum 500) \<and>
     map_of ?r ''plans'' = Some (JArr [JObj [(''name'', JStr ''Basic'')]]) \<and>
     map_of ?r ''currency'' = None"
    by (auto simp: find_Some_iff)
  from stored_records_fields[of ?f example_extractor_short "''https://beta.test''" "''Beta''"
      file_written no_escape 0 0 "[]" 0 "\<lparr> item_name = ''Beta'', item_website = None \<rparr>" "[]"] f b
  have two: "map_of ?f ''error'' = Some (JStr ''All URLs failed to yield valid pricing data'') \<and>
     map_of ?f ''attempted_urls'' = Some (JArr [JStr ''https://beta.test/pricing''])"
    by (auto simp: example_short)
  from s f one two show ?thesis by simp
qed

lemma process_items_two:
  "fst (process_items wr g pc tc r i [a, b]) =
     fst (process_item wr g pc tc (fst (process_item wr g pc tc r i a)) (i + 1) b)"
  by (simp split: prod.splits)

text \<open>
  The claim as stated fails: the record stored for a row with a blank website has neither
  \<^verbatim>\<open>name\<close> nor \<^verbatim>\<open>domain\<close>, and a success record has no \<^verbatim>\<open>currency\<close> when the analysis gave
  none.
\<close>

theorem stored_records_fields_counterexample:
  "map_of (fst (process_items file_written (run_site example_extractor_no_currency no_escape) 0 2 [] 0
      [\<lparr> item_name = ''Gamma'', item_website = Some '' '' \<rparr>,
       \<lparr> item_name = ''Beta'', item_website = Some ''beta.test'' \<rparr>])) ''Gamma''
     = Some [(''error'', JStr ''Empty URL''), (''success'', JBool False)] \<and>
   map_of [(''error'', JStr ''Empty URL''), (''success'', JBool False)] ''name'' = None \<and>
   map_of [(''error'', JStr ''Empty URL''), (''success'', JBool False)] ''domain'' = None \<and>
   map_of (fst (process_items file_written (run_site example_extractor_no_currency no_escape) 0 2 [] 0
      [\<lparr> item_name = ''Gamma'', item_website = Some '' '' \<rparr>,
       \<lparr> item_name = ''Beta'', item_website = Some ''beta.test'' \<rparr>])) ''Beta''
     = Some [(''plans'', JArr [JObj [(''name'', JStr ''Basic'')]]), (''name'', JStr ''Beta''),
      (''domain'', JStr ''https://beta.test''), (''source_url'', JStr ''https://beta.test/pricing''),
      (''success'', JBool True), (''content_length'', JNum 500)] \<and>
   map_of [(''plans'', JArr [JObj [(''name'', JStr ''Basic'')]]), (''name'', JStr ''Beta''),
      (''domain'', JStr ''https://beta.test''), (''source_url'', JStr ''https://beta.test/pricing''),
      (''success'', JBool True), (''content_length'', JNum 500)] ''currency'' = None"
proof -
  let ?g = "run_site example_extractor_no_currency no_escape"
  let ?wr = file_written
  let ?gamma = "\<lparr> item_name = ''Gamma'', item_website = Some '' '' \<rparr>"
  let ?beta = "\<lparr> item_name = ''Beta'', item_website = Some ''beta.test'' \<rparr>"
  let ?r1 = "fst (process_item ?wr ?g 0 2 [] 0 ?gamma)"
  have e: "website_empty (item_website ?gamma)" by (simp add: example_blank)
  have r1: "map_of ?r1 ''Gamma'' = Some [(''error'', JStr ''Empty URL''), (''success'', JBool False)]"
    by (simp add: process_item_empty[OF e] update_conv')
  have ne: "\<not> website_empty (item_website ?beta)"
    by (simp add: website_empty_def py_strip_def is_space_def)
  have g: "map_of (fst (process_item ?wr ?g 0 2 ?r1 (0 + 1) ?beta)) ''Gamma'' = map_of ?r1 ''Gamma''"
    by (rule process_item_other) simp
  have b: "map_of (fst (process_item ?wr ?g 0 2 ?r1 (0 + 1) ?beta)) ''Beta'' =
      Some [(''plans'', JArr [JObj [(''name'', JStr ''Basic'')]]), (''name'', JStr ''Beta''),
      (''domain'', JStr ''https://beta.test''), (''source_url'', JStr ''https://beta.test/pricing''),
      (''success'', JBool True), (''content_length'', JNum 500)]"
    using process_item_called[OF ne, of ?wr ?g 0 2 ?r1 "0 + 1"]
    by (simp add: with_scheme_def run_site_def no_escape_def example_beta)
  show ?thesis
    unfolding process_items_two using r1 g b by simp
qed

subsection \<open>The Existence Checker\<close>

text \<open>
  Claim C4, as the code has it. In \<^verbatim>\<open>main.py\<close> the checker issues HEAD first and returns
  true with no further request exactly when HEAD returns with status 200; otherwise (any
  other status, or an exception) it issues GET and returns true iff GET returns with status
  200: two requests at most. In \<^verbatim>\<open>main_failed.py\<close> the order is GET, browser navigation,
  HEAD, and a status below 400 counts as success.
\<close>

theorem check_url_exists_tiers:
  "check_url_exists env url =
     (if (case http_head env url of Inr response \<Rightarrow> status_code response = 200 | Inl e \<Rightarrow> False)
      then (True, [Head url])
      else ((case http_get env url of Inr response \<Rightarrow> status_code response = 200 | Inl e \<Rightarrow> False),
            [Head url, Get url])) \<and>
   check_url_exists_main_failed env url =
     (if (case http_get env url of Inr response \<Rightarrow> status_code response < 400 | Inl e \<Rightarrow> False)
      then (True, [Get url])
      else if (case browser_goto env url of
                 Inr (Some status) \<Rightarrow> status \<noteq> 0 \<and> status < 400
               | Inr None \<Rightarrow> False
               | Inl e \<Rightarrow> False)
      then (True, [Get url, Goto url])
      else ((case http_head env url of Inr response \<Rightarrow> status_code response < 400 | Inl e \<Rightarrow> False),
            [Get url, Goto url, Head url]))"
proof
  show "check_url_exists env url =
     (if (case http_head env url of Inr response \<Rightarrow> status_code response = 200 | Inl e \<Rightarrow> False)
      then (True, [Head url])
      else ((case http_get env url of Inr response \<Rightarrow> status_code response = 200 | Inl e \<Rightarrow> False),
            [Head url, Get url]))"
    by (auto simp: check_url_exists_def split: sum.splits)
next
  show "check_url_exists_main_failed env url =
     (if (case http_get env url of Inr response \<Rightarrow> status_code response < 400 | Inl e \<Rightarrow> False)
      then (True, [Get url])
      else if (case browser_goto env url of
                 Inr (Some status) \<Rightarrow> status \<noteq> 0 \<and> status < 400
               | Inr None \<Rightarrow> False
               | Inl e \<Rightarrow> False)
      then (True, [Get url, Goto url])
      else ((case http_head env url of Inr response \<Rightarrow> status_code response < 400 | Inl e \<Rightarrow> False),
            [Get url, Goto url, Head url]))"
    by (auto simp: check_url_exists_main_failed_def split: sum.splits option.splits)
qed

text \<open>
  The claim as stated fails. The checker of \<^verbatim>\<open>main_failed.py\<close> answers for the pricing
  page after a single GET: no HEAD probe comes first. And in \<^verbatim>\<open>main.py\<close> a HEAD probe that
  reports the success status 204 does not end the check: GET is issued, and its 404 makes
  the verdict false.
\<close>

theorem check_url_exists_tiers_counterexample:
  "check_url_exists_main_failed example_web ''https://acme.test/pricing''
     = (True, [Get ''https://acme.test/pricing'']) \<and>
   http_head example_web ''https://acme.test/empty''
     = Inr \<lparr> status_code = 204, content_bytes = [], content_type = [] \<rparr> \<and>
   check_url_exists example_web ''https://acme.test/empty''
     = (False, [Head ''https://acme.test/empty'', Get ''https://acme.test/empty''])"
  by (simp add: check_url_exists_main_failed_def check_url_exists_def example_web_def)

subsection \<open>The Content Extractor\<close>

lemma startswith_append: "startswith (p @ s) p"
  by (induction p) auto

lemma extract_pricing_content_fst:
  "fst (extract_pricing_content env url) =
     (case http_get env url of
        Inl e \<Rightarrow> ''Error extracting content: '' @ str_exn e
      | Inr response \<Rightarrow>
          if status_code response \<noteq> 200 then ''Error: HTTP '' @ str_nat (status_code response)
          else
            (case html_body_text env (content_bytes response) of
               Inl e \<Rightarrow> ''Error extracting content: '' @ str_exn e
             | Inr None \<Rightarrow> ''Error: No body tag found''
             | Inr (Some full_body_text) \<Rightarrow> take 50000 full_body_text))"
  by (simp add: extract_pricing_content_def Let_def split: sum.splits option.splits)

lemma extract_with_requests_range:
  "length (extract_with_requests env url) \<le> 50000 \<or> startswith (extract_with_requests env url) ''Error''"
  by (auto simp: extract_with_requests_def split: sum.splits option.splits)

lemma extract_with_requests_text:
  "(case page_text env url of
      Some t \<Rightarrow> extract_with_requests env url = take 50000 t
    | None \<Rightarrow> startswith (extract_with_requests env url) ''Error'')"
  by (auto simp: extract_with_requests_def page_text_def split: sum.splits option.splits)

lemma extract_with_playwright_text:
  "extract_with_playwright env url =
     (case rendered_text env url of None \<Rightarrow> [] | Some t \<Rightarrow> take 50000 t)"
  by (auto simp: extract_with_playwright_def rendered_text_def Let_def
      split: sum.splits option.splits prod.splits)

lemma fold_longest:
  "fold (\<lambda>text body_text. if length text > length body_text then text else body_text) texts acc
     \<in> insert (acc :: string) (set texts) \<and>
   length acc \<le> length
     (fold (\<lambda>text body_text. if length text > length body_text then text else body_text) texts acc) \<and>
   (\<forall>t \<in> set texts. length t \<le> length
     (fold (\<lambda>text body_text. if length text > length body_text then text else body_text) texts acc))"
proof (induction texts arbitrary: acc)
  case Nil
  then show ?case by simp
next
  case (Cons a texts)
  let ?f = "\<lambda>text body_text :: string. if length text > length body_text then text else body_text"
  from Cons.IH[of "?f a acc"]
  have m: "fold ?f texts (?f a acc) \<in> insert (?f a acc) (set texts)"
    and l: "length (?f a acc) \<le> length (fold ?f texts (?f a acc))"
    and u: "\<forall>t \<in> set texts. length t \<le> length (fold ?f texts (?f a acc))"
    by blast+
  have a: "length a \<le> length (?f a acc)" and b: "length acc \<le> length (?f a acc)"
    and c: "?f a acc = a \<or> ?f a acc = acc"
    by auto
  from m c have "fold ?f texts (?f a acc) \<in> insert acc (set (a # texts))" by auto
  moreover from l b have "length acc \<le> length (fold ?f texts (?f a acc))" by linarith
  moreover from l a u have "\<forall>t \<in> set (a # texts). length t \<le> length (fold ?f texts (?f a acc))"
    by auto
  ultimately show ?case by simp
qed

lemma longest_text_longest:
  "(\<forall>t \<in> set texts. length t \<le> length (longest_text texts)) \<and>
   (texts \<noteq> [] \<longrightarrow> longest_text texts \<in> set texts)"
proof -
  from fold_longest[of texts "[]"]
  have m: "longest_text texts \<in> insert [] (set texts)"
    and u: "\<forall>t \<in> set texts. length t \<le> length (longest_text texts)"
    by (simp_all add: longest_text_def)
  have "texts \<noteq> [] \<longrightarrow> longest_text texts \<in> set texts"
  proof
    assume ne: "texts \<noteq> []"
    show "longest_text texts \<in> set texts"
    proof (cases "longest_text texts = []")
      case True
      from ne obtain t where t: "t \<in> set texts" by (cases texts) auto
      with u True have "t = []" by auto
      with t True show ?thesis by simp
    next
      case False
      with m show ?thesis by auto
    qed
  qed
  with u show ?thesis by blast
qed

lemma long_take: "100 < length (take 50000 t) \<longleftrightarrow> 100 < length (t :: string)"
  by auto

lemma main_failed_text:
  "(case long_enough (rendered_text env url) of
      Some t \<Rightarrow> extract_pricing_content_main_failed env url = take 50000 t
    | None \<Rightarrow>
        (case long_enough (page_text env url) of
           Some t \<Rightarrow> extract_pricing_content_main_failed env url = take 50000 t
         | None \<Rightarrow>
             startswith (extract_pricing_content_main_failed env url) ''Error'' \<and>
             (page_text env url \<noteq> None \<longrightarrow>
                extract_pricing_content_main_failed env url =
                  ''Error: Could not extract content with either method'')))"
proof -
  have p: "extract_with_playwright env url =
     (case rendered_text env url of None \<Rightarrow> [] | Some t \<Rightarrow> take 50000 t)"
    by (rule extract_with_playwright_text)
  from extract_with_requests_text[of env url]
  show ?thesis
    unfolding extract_pricing_content_main_failed_def Let_def p long_enough_def
    by (cases "rendered_text env url"; cases "page_text env url") (auto simp: long_take)
qed

text \<open>
  Claim C7, as the code has it. \<^verbatim>\<open>extract_pricing_content\<close> of \<^verbatim>\<open>main.py\<close> returns the body
  text of the page cut to 50000 characters when the fetch succeeds, and otherwise a string
  that starts with \<^verbatim>\<open>Error\<close>. The three indicator checks only feed the log: whatever they
  answer, the returned string is the same, also when none of them detects anything. The
  variant of \<^verbatim>\<open>main_failed.py\<close>, which has no detection, returns the text the browser path
  reads, cut to 50000 characters, when that text has more than 100 characters: the longest
  text of a main-content element of the rendered page, or the text of its body when that
  is shorter than 100 characters. Otherwise it returns the body text of the plain fetch,
  cut to 50000 characters, when that has more than 100 characters; otherwise a string that
  starts with \<^verbatim>\<open>Error\<close>, which is the fixed message
  \<^verbatim>\<open>Error: Could not extract content with either method\<close> when the plain fetch succeeded with
  a text of at most 100 characters. The browser path reads no text exactly when a browser
  call or the parser raises. In both variants the result has at most 50000 characters or
  starts with \<^verbatim>\<open>Error\<close>.
\<close>

theorem extract_pricing_content_result:
  "(case page_text env url of
      Some full_body_text \<Rightarrow>
        fst (extract_pricing_content env url) = take 50000 full_body_text \<and>
        length (fst (extract_pricing_content env url)) \<le> 50000
    | None \<Rightarrow> startswith (fst (extract_pricing_content env url)) ''Error'') \<and>
   fst (extract_pricing_content
          (env\<lparr> html_selector_hit := sel_hit, html_card_currency := card_hit,
                re_price_search := price_hit \<rparr>) url)
     = fst (extract_pricing_content env url) \<and>
   (case long_enough (rendered_text env url) of
      Some t \<Rightarrow> extract_pricing_content_main_failed env url = take 50000 t
    | None \<Rightarrow>
        (case long_enough (page_text env url) of
           Some t \<Rightarrow> extract_pricing_content_main_failed env url = take 50000 t
         | None \<Rightarrow>
             startswith (extract_pricing_content_main_failed env url) ''Error'' \<and>
             (page_text env url \<noteq> None \<longrightarrow>
                extract_pricing_content_main_failed env url =
                  ''Error: Could not extract content with either method''))) \<and>
   (\<forall>doc texts body.
      browser_render env url = Inr doc \<and> html_main_content env doc = Inr (texts, body) \<longrightarrow>
      rendered_text env url =
        Some (if length (longest_text texts) < 100
              then (case body of Some t \<Rightarrow> t | None \<Rightarrow> longest_text texts)
              else longest_text texts) \<and>
      (\<forall>t \<in> set texts. length t \<le> length (longest_text texts)) \<and>
      (texts \<noteq> [] \<longrightarrow> longest_text texts \<in> set texts)) \<and>
   (rendered_text env url = None \<longleftrightarrow>
      (\<exists>e. browser_render env url = Inl e) \<or>
      (\<exists>doc e. browser_render env url = Inr doc \<and> html_main_content env doc = Inl e)) \<and>
   (length (extract_pricing_content_main_failed env url) \<le> 50000 \<or>
    startswith (extract_pricing_content_main_failed env url) ''Error'')"
proof (intro conjI)
  show "case page_text env url of
      Some full_body_text \<Rightarrow>
        fst (extract_pricing_content env url) = take 50000 full_body_text \<and>
        length (fst (extract_pricing_content env url)) \<le> 50000
    | None \<Rightarrow> startswith (fst (extract_pricing_content env url)) ''Error''"
    by (auto simp: extract_pricing_content_fst page_text_def split: sum.splits option.splits)
next
  show "fst (extract_pricing_content
          (env\<lparr> html_selector_hit := sel_hit, html_card_currency := card_hit,
                re_price_search := price_hit \<rparr>) url)
     = fst (extract_pricing_content env url)"
    by (simp add: extract_pricing_content_fst split: sum.splits)
next
  show "case long_enough (rendered_text env url) of
      Some t \<Rightarrow> extract_pricing_content_main_failed env url = take 50000 t
    | None \<Rightarrow>
        (case long_enough (page_text env url) of
           Some t \<Rightarrow> extract_pricing_content_main_failed env url = take 50000 t
         | None \<Rightarrow>
             startswith (extract_pricing_content_main_failed env url) ''Error'' \<and>
             (page_text env url \<noteq> None \<longrightarrow>
                extract_pricing_content_main_failed env url =
                  ''Error: Could not extract content with either method''))"
    by (rule main_failed_text)
next
  show "\<forall>doc texts body.
      browser_render env url = Inr doc \<and> html_main_content env doc = Inr (texts, body) \<longrightarrow>
      rendered_text env url =
        Some (if length (longest_text texts) < 100
              then (case body of Some t \<Rightarrow> t | None \<Rightarrow> longest_text texts)
              else longest_text texts) \<and>
      (\<forall>t \<in> set texts. length t \<le> length (longest_text texts)) \<and>
      (texts \<noteq> [] \<longrightarrow> longest_text texts \<in> set texts)"
    using longest_text_longest by (simp add: rendered_text_def)
next
  show "rendered_text env url = None \<longleftrightarrow>
      (\<exists>e. browser_render env url = Inl e) \<or>
      (\<exists>doc e. browser_render env url = Inr doc \<and> html_main_content env doc = Inl e)"
    by (auto simp: rendered_text_def split: sum.splits prod.splits)
next
  show "length (extract_pricing_content_main_failed env url) \<le> 50000 \<or>
    startswith (extract_pricing_content_main_failed env url) ''Error''"
    using extract_with_requests_range[of env url]
    by (auto simp: extract_pricing_content_main_failed_def extract_with_playwright_text Let_def
        split: option.splits)
qed

lemma tiny_page: "page_text browser_web ''https://acme.test/tiny'' = Some (replicate 50 CHR ''y'')"
  by (simp add: page_text_def browser_web_def example_web_def)

theorem extract_pricing_content_result_witness:
  "page_text example_web ''https://acme.test/pricing'' = Some (replicate 60000 CHR ''x'') \<and>
   snd (extract_pricing_content example_web ''https://acme.test/pricing'') = Some False \<and>
   fst (extract_pricing_content example_web ''https://acme.test/pricing'') = replicate 50000 CHR ''x'' \<and>
   length (fst (extract_pricing_content example_web ''https://acme.test/pricing'')) \<le> 50000 \<and>
   page_text example_web ''https://acme.test/gone'' = None \<and>
   startswith (fst (extract_pricing_content example_web ''https://acme.test/gone'')) ''Error'' \<and>
   rendered_text example_web ''https://acme.test/pricing'' = None \<and>
   extract_pricing_content_main_failed example_web ''https://acme.test/pricing''
     = replicate 50000 CHR ''x'' \<and>
   browser_render example_web ''https://acme.test/pricing'' = Inl (Exn ''no browser'') \<and>
   browser_render browser_web ''https://acme.test/tiny'' = Inr ''<tiny>'' \<and>
   html_main_content browser_web ''<tiny>'' = Inr ([], Some (replicate 50 CHR ''y'')) \<and>
   rendered_text browser_web ''https://acme.test/tiny'' = Some (replicate 50 CHR ''y'') \<and>
   page_text browser_web ''https://acme.test/tiny'' = Some (replicate 50 CHR ''y'') \<and>
   extract_pricing_content_main_failed browser_web ''https://acme.test/tiny''
     = ''Error: Could not extract content with either method''"
proof -
  have p: "page_text example_web ''https://acme.test/pricing'' = Some (replicate 60000 CHR ''x'')"
    by (simp add: page_text_def example_web_def)
  have q: "page_text example_web ''https://acme.test/gone'' = None"
    by (simp add: page_text_def example_web_def)
  have l: "snd (extract_pricing_content example_web ''https://acme.test/pricing'') = Some False"
    by (simp add: extract_pricing_content_def example_web_def)
  have b: "browser_render example_web ''https://acme.test/pricing'' = Inl (Exn ''no browser'')"
    by (simp add: example_web_def)
  have t: "browser_render browser_web ''https://acme.test/tiny'' = Inr ''<tiny>''"
    "html_main_content browser_web ''<tiny>'' = Inr ([], Some (replicate 50 CHR ''y''))"
    by (simp_all add: browser_web_def example_web_def)
  have e: "longest_text [] = []" by (simp add: longest_text_def)
  from extract_pricing_content_result[of example_web "''https://acme.test/pricing''"] b
  have r: "rendered_text example_web ''https://acme.test/pricing'' = None"
    by simp
  from extract_pricing_content_result[of browser_web "''https://acme.test/tiny''"] t e
  have r': "rendered_text browser_web ''https://acme.test/tiny'' = Some (replicate 50 CHR ''y'')"
    by simp
  from extract_pricing_content_result[of example_web "''https://acme.test/pricing''"]
    extract_pricing_content_result[of example_web "''https://acme.test/gone''"]
    extract_pricing_content_result[of browser_web "''https://acme.test/tiny''"]
    p q l r r' b t tiny_page
  show ?thesis by (simp add: long_enough_def)
qed

lemma main_text_not_error: "\<not> startswith (replicate 200 CHR ''m'') ''Error''"
  by code_simp

text \<open>
  The claim as stated fails for \<^verbatim>\<open>main_failed.py\<close>: the rendered pricing page has a body
  text of 60000 characters, and the extractor returns the 200 characters of its \<^verbatim>\<open>main\<close>
  element, which is neither the capped body text nor a string that starts with \<^verbatim>\<open>Error\<close>.
\<close>

theorem extract_pricing_content_result_counterexample:
  "browser_render browser_web ''https://acme.test/pricing'' = Inr ''<html>'' \<and>
   html_main_content browser_web ''<html>''
     = Inr ([replicate 200 CHR ''m''], Some (replicate 60000 CHR ''x'')) \<and>
   page_text browser_web ''https://acme.test/pricing'' = Some (replicate 60000 CHR ''x'') \<and>
   extract_pricing_content_main_failed browser_web ''https://acme.test/pricing''
     = replicate 200 CHR ''m'' \<and>
   replicate 200 CHR ''m'' \<noteq> take 50000 (replicate 60000 CHR ''x'') \<and>
   \<not> startswith (replicate 200 CHR ''m'') ''Error''"
proof -
  have a: "browser_render browser_web ''https://acme.test/pricing'' = Inr ''<html>''"
    and b: "html_main_content browser_web ''<html>''
     = Inr ([replicate 200 CHR ''m''], Some (replicate 60000 CHR ''x''))"
    by (simp_all add: browser_web_def example_web_def)
  have c: "page_text browser_web ''https://acme.test/pricing'' = Some (replicate 60000 CHR ''x'')"
    by (simp add: page_text_def browser_web_def example_web_def)
  have d: "extract_with_playwright browser_web ''https://acme.test/pricing'' = replicate 200 CHR ''m''"
    by (simp add: extract_with_playwright_def a b longest_text_def)
  have e: "extract_pricing_content_main_failed browser_web ''https://acme.test/pricing''
     = replicate 200 CHR ''m''"
    by (simp add: extract_pricing_content_main_failed_def d)
  from a b c e main_text_not_error show ?thesis by simp
qed

subsection \<open>Sitemap traversal\<close>

declare extract_nested_sitemaps.simps [simp del]
declare sitemap_loop.simps [simp del]

lemma fold_invariant:
  assumes "\<And>x s. x \<in> set xs \<Longrightarrow> I s \<Longrightarrow> I (f x s)" and "I s0"
  shows "I (fold f xs s0)"
  using assms by (induction xs arbitrary: s0) auto

lemma nested_depth:
  "\<forall>(u, d) \<in> set (snd (snd (extract_nested_sitemaps env url p depth))). d \<le> 10"
proof (induction env url p depth rule: extract_nested_sitemaps.induct)
  case (1 env url p depth)
  show ?case
  proof (cases "10 < depth \<or> url \<in> p")
    case True
    then show ?thesis by (subst extract_nested_sitemaps.simps) auto
  next
    case False
    then have d: "\<not> 10 < depth" and u: "url \<notin> p" by auto
    show ?thesis
    proof (cases "http_get env url")
      case (Inl e)
      with d u show ?thesis by (subst extract_nested_sitemaps.simps) auto
    next
      case (Inr b)
      let ?I = "\<lambda>s :: string list \<times> string set \<times> (string \<times> nat) list.
                  \<forall>(u, d) \<in> set (snd (snd s)). d \<le> 10"
      let ?step = "\<lambda>nested_sitemap (additional_sitemaps, processed_urls, fetched).
                           if nested_sitemap \<notin> processed_urls \<and> is_sitemap_index env nested_sitemap
                           then
                             (case extract_nested_sitemaps env nested_sitemap processed_urls
                                     (depth + 1) of
                                (deeper_sitemaps, processed_urls, fetched') \<Rightarrow>
                                  (additional_sitemaps @ deeper_sitemaps, processed_urls,
                                   fetched @ fetched'))
                           else (additional_sitemaps, processed_urls, fetched)"
      let ?xs = "nested_locs env url (content_bytes b)"
      have inv: "?I (fold ?step ?xs ([], insert url p, [(url, depth)]))"
      proof (rule fold_invariant)
        show "?I ([], insert url p, [(url, depth)])" using d by simp
      next
        fix x s assume x: "x \<in> set ?xs" and s: "?I s"
        obtain a q f where s_eq: "s = (a, q, f)" by (cases s)
        show "?I (?step x s)"
        proof (cases "x \<notin> q \<and> is_sitemap_index env x")
          case True
          from "1.IH"[OF d u Inr refl x True]
          have "\<forall>(u, d) \<in> set (snd (snd (extract_nested_sitemaps env x q (depth + 1)))). d \<le> 10" .
          with s s_eq True show ?thesis by (auto split: prod.splits)
        next
          case False
          with s s_eq show ?thesis by auto
        qed
      qed
      show ?thesis
        using d u Inr inv
        by (subst extract_nested_sitemaps.simps) (simp add: Let_def split: prod.splits)
    qed
  qed
qed

lemma extract_links_distinct: "distinct (extract_links_from_sitemap env u)"
  by (simp add: extract_links_from_sitemap_def split: sum.splits)

lemma sitemap_loop_bounds:
  assumes "iterations \<le> 50" and "\<forall>(u, d) \<in> set fetched. d \<le> 10" and "distinct links"
  shows "fst (snd (sitemap_loop env queue iterations processed links fetched)) \<le> 50 \<and>
         distinct (fst (sitemap_loop env queue iterations processed links fetched)) \<and>
         (\<forall>(u, d) \<in> set (snd (snd (sitemap_loop env queue iterations processed links fetched))). d \<le> 10)"
  using assms
proof (induction env queue iterations processed links fetched rule: sitemap_loop.induct)
  case (1 env queue iterations processed links fetched)
  show ?case
  proof (cases "queue \<noteq> [] \<and> iterations < 50")
    case False
    with "1.prems" show ?thesis by (subst (1 2 3) sitemap_loop.simps) auto
  next
    case True
    then have it: "iterations + 1 \<le> 50" by simp
    have dl: "distinct (List.union links (extract_links_from_sitemap env (hd queue)))"
      by (simp add: distinct_union extract_links_distinct)
    have fl: "\<forall>(u, d) \<in> set (fetched @ snd (snd (extract_nested_sitemaps env (hd queue) {} 0))). d \<le> 10"
      using "1.prems"(2) nested_depth[of env "hd queue" "{}" 0] by auto
    show ?thesis
    proof (cases "hd queue \<in> processed")
      case a: True
      from "1.IH"(1)[OF True a it "1.prems"(2) "1.prems"(3)] True a
      show ?thesis by (subst (1 2 3) sitemap_loop.simps) simp
    next
      case a: False
      show ?thesis
      proof (cases "fst (check_url_exists env (hd queue))")
        case b: False
        from "1.IH"(2)[OF True a b it "1.prems"(2) "1.prems"(3)] True a b
        show ?thesis by (subst (1 2 3) sitemap_loop.simps) simp
      next
        case b: True
        then have b': "\<not> \<not> fst (check_url_exists env (hd queue))" by simp
        show ?thesis
        proof (cases "is_sitemap_index env (hd queue)")
          case c: True
          from "1.IH"(3)[OF True a b' c it fl dl] True a b c
          show ?thesis by (subst (1 2 3) sitemap_loop.simps) simp
        next
          case c: False
          from "1.IH"(4)[OF True a b' c it "1.prems"(2) dl] True a b c
          show ?thesis by (subst (1 2 3) sitemap_loop.simps) simp
        qed
      qed
    qed
  qed
qed

text \<open>
  Claim C3. \<^verbatim>\<open>_get_all_sitemap_links\<close> and \<^verbatim>\<open>_extract_nested_sitemaps\<close> are total: both
  definitions above carry their termination proofs (the loop by \<open>50 - iterations\<close>, the
  recursion by \<open>11 - depth\<close>), whatever the sitemaps contain, cycles included. For every
  environment and domain the traversal returns a list of links without duplicates, its
  loop has run at most 50 times, and every document the nested expansion fetched was
  fetched by a call of depth at most 10 (a call of depth 11 returns at once, before any
  fetch). Both bounds hold of the same run.
\<close>

theorem sitemap_traversal_bounded:
  "\<exists>links iterations fetched.
     get_all_sitemap_links env domain = (links, iterations, fetched) \<and>
     iterations \<le> 50 \<and> distinct links \<and> (\<forall>(u, d) \<in> set fetched. d \<le> 10)"
proof -
  obtain links iterations fetched where
    r: "get_all_sitemap_links env domain = (links, iterations, fetched)"
    by (cases "get_all_sitemap_links env domain") auto
  have "iterations \<le> 50 \<and> distinct links \<and> (\<forall>(u, d) \<in> set fetched. d \<le> 10)"
  proof (cases "discover_sitemap_urls env domain")
    case (Inl e)
    with r show ?thesis by (simp add: get_all_sitemap_links_def)
  next
    case (Inr sitemap_urls)
    from sitemap_loop_bounds[of 0 "[]" "[]" env sitemap_urls "{}"] r Inr
    show ?thesis by (simp add: get_all_sitemap_links_def)
  qed
  with r show ?thesis by blast
qed

lemma cyclic_result:
  "get_all_sitemap_links cyclic_web ''https://s.test'' =
     ([''https://s.test/b/sitemap_index.xml'', ''https://s.test/sitemap_index.xml'',
       ''https://s.test/pricing''],
      8,
      [(''https://s.test/sitemap_index.xml'', 0), (''https://s.test/b/sitemap_index.xml'', 1),
       (''https://s.test/b/sitemap_index.xml'', 0), (''https://s.test/sitemap_index.xml'', 1)])"
  by code_simp

theorem sitemap_traversal_bounded_witness:
  "fst (snd (get_all_sitemap_links cyclic_web ''https://s.test'')) = 8 \<and>
   fst (snd (get_all_sitemap_links cyclic_web ''https://s.test'')) \<le> 50 \<and>
   fst (get_all_sitemap_links cyclic_web ''https://s.test'') =
     [''https://s.test/b/sitemap_index.xml'', ''https://s.test/sitemap_index.xml'',
      ''https://s.test/pricing''] \<and>
   distinct (fst (get_all_sitemap_links cyclic_web ''https://s.test'')) \<and>
   (''https://s.test/b/sitemap_index.xml'', 1)
      \<in> set (snd (snd (get_all_sitemap_links cyclic_web ''https://s.test'')))"
proof -
  from sitemap_traversal_bounded[of cyclic_web "''https://s.test''"]
  obtain links iterations fetched where
    "get_all_sitemap_links cyclic_web ''https://s.test'' = (links, iterations, fetched)"
    "iterations \<le> 50" "distinct links" "\<forall>(u, d) \<in> set fetched. d \<le> 10"
    by blast
  then show ?thesis by (auto simp: cyclic_result)
qed

subsection \<open>The ranker\<close>

lemma startswith_prefix: "startswith s p = prefix p s"
  by (induction s p rule: startswith.induct) auto

lemma py_in_sublist: "py_in sub s = sublist sub s"
  by (induction s) (auto simp: startswith_prefix sublist_Cons_right)

lemma py_in_subset: "py_in sub s \<Longrightarrow> set sub \<subseteq> set s"
  by (simp add: py_in_sublist set_mono_sublist)

lemma py_lower_plain: "py_lower (plain_link n) = plain_link n"
  by (simp add: py_lower_def plain_link_def lower_char_def)

lemma set_plain: "set (plain_link n) \<subseteq> set ''https://a.test/x''"
  by (auto simp: plain_link_def)

lemma plain_not_high: "\<not> is_high (plain_link n)"
proof
  assume "is_high (plain_link n)"
  then obtain k where k: "k \<in> set [''pricing'', ''price'', ''plan'', ''buy'', ''subscribe'', ''order'', ''checkout'']"
    and "py_in k (plain_link n)"
    by (auto simp: is_high_def any_in_def py_lower_plain list_ex_iff simp del: py_in.simps)
  then have "set k \<subseteq> set ''https://a.test/x''"
    using py_in_subset set_plain by blast
  with k show False by auto
qed

lemma plain_not_medium: "\<not> is_medium (plain_link n)"
proof
  assume "is_medium (plain_link n)"
  then obtain k where k: "k \<in> set [''product'', ''feature'', ''service'', ''solution'', ''package'', ''tier'']"
    and "py_in k (plain_link n)"
    by (auto simp: is_medium_def any_in_def py_lower_plain list_ex_iff simp del: py_in.simps)
  then have "set k \<subseteq> set ''https://a.test/x''"
    using py_in_subset set_plain by blast
  with k show False by auto
qed

lemma home_low: "\<not> is_high ''https://a.test''" "\<not> is_medium ''https://a.test''"
  by (simp_all add: is_high_def is_medium_def any_in_def py_lower_def lower_char_def)

lemma both_classes:
  "is_high ''https://a.test/product/pricing''" "is_medium ''https://a.test/product/pricing''"
  by (simp_all add: is_high_def is_medium_def any_in_def py_lower_def lower_char_def)

lemma upper_high: "is_high ''https://a.test/PRICING''" "\<not> is_medium ''https://a.test/PRICING''"
  by (simp_all add: is_high_def is_medium_def any_in_def py_lower_def lower_char_def)

lemma filter_plain:
  "filter is_high (map plain_link ns) = []"
  "filter is_medium (map plain_link ns) = []"
  "filter (\<lambda>link. \<not> is_high link \<and> \<not> is_medium link) (map plain_link ns) = map plain_link ns"
  by (induction ns) (simp_all add: plain_not_high plain_not_medium)

lemma sample_links_refines: "sample_links domain all_links = priority_sample domain all_links"
proof -
  let ?high = "filter is_high all_links" and ?medium = "filter is_medium all_links"
  have low: "filter (\<lambda>link. link \<notin> set (?high @ ?medium)) all_links =
             filter (\<lambda>link. \<not> is_high link \<and> \<not> is_medium link) all_links"
    by (rule filter_cong) auto
  have d: "(400::nat) div 3 = 133" by simp
  show ?thesis
    unfolding sample_links_def priority_sample_def Let_def is_high_def[symmetric]
      is_medium_def[symmetric] low d
    by (simp add: diff_diff_left)
qed

lemma links_for_ai_eq:
  "links_for_ai domain all_links =
     (if length (with_homepage domain all_links) \<le> 400 then with_homepage domain all_links
      else priority_sample domain (with_homepage domain all_links))"
  by (auto simp: links_for_ai_def with_homepage_def sample_links_refines Let_def)

lemma priority_sample_length: "length (priority_sample domain candidates) \<le> 401"
proof -
  define h where "h = length (take 133 (filter is_high candidates))"
  define m where "m = length (take ((400 - h) div 2) (filter is_medium candidates))"
  define l where "l = length (take (400 - h - m)
      (filter (\<lambda>link. \<not> is_high link \<and> \<not> is_medium link) candidates))"
  have "h \<le> 133" "m \<le> (400 - h) div 2" "l \<le> 400 - h - m"
    unfolding h_def m_def l_def by (simp_all only: length_take min.cobounded2)
  then have "h + m + l \<le> 400" by arith
  moreover have "length (priority_sample domain candidates) \<le> h + m + l + 1"
    unfolding priority_sample_def Let_def h_def m_def l_def by (simp only: length_append split: if_splits) simp
  ultimately show ?thesis by simp
qed

lemma priority_sample_home: "domain \<in> set (priority_sample domain candidates)"
  by (simp add: priority_sample_def Let_def)

lemma priority_sample_subset:
  "set (priority_sample domain candidates) \<subseteq> insert domain (set candidates)"
  by (auto simp: priority_sample_def Let_def dest: in_set_takeD)

lemma with_homepage_set: "set (with_homepage domain all_links) = insert domain (set all_links)"
  by (auto simp: with_homepage_def)

text \<open>
  Claim C6, as the code has it. With the homepage ensured, a list of at most 400 links is
  passed on as it is, and a longer one is replaced by its priority sample: up to 133
  high-priority links, then medium-priority links up to half of what remains of 400, then
  low-priority links up to 400 in all, and the homepage at the end if it was dropped.
  The classes are decided on the lower-cased URL, and the high and the medium class are not
  disjoint. The list sent to the model has at most 401 entries, contains the homepage, and
  holds nothing but candidates and the homepage.
\<close>

theorem priority_sampling:
  "links_for_ai domain all_links =
     (if length (with_homepage domain all_links) \<le> 400 then with_homepage domain all_links
      else priority_sample domain (with_homepage domain all_links)) \<and>
   length (links_for_ai domain all_links) \<le> 401 \<and>
   domain \<in> set (links_for_ai domain all_links) \<and>
   set (links_for_ai domain all_links) \<subseteq> insert domain (set all_links)"
proof (intro conjI)
  show "links_for_ai domain all_links =
     (if length (with_homepage domain all_links) \<le> 400 then with_homepage domain all_links
      else priority_sample domain (with_homepage domain all_links))"
    by (rule links_for_ai_eq)
  show "length (links_for_ai domain all_links) \<le> 401"
    using priority_sample_length[of domain "with_homepage domain all_links"]
    by (simp add: links_for_ai_eq)
  show "domain \<in> set (links_for_ai domain all_links)"
    by (simp add: links_for_ai_eq priority_sample_home with_homepage_set)
  show "set (links_for_ai domain all_links) \<subseteq> insert domain (set all_links)"
    using priority_sample_subset[of domain "with_homepage domain all_links"]
    by (auto simp: links_for_ai_eq with_homepage_set)
qed

lemma length_long_list: "length long_list = 401" "length long_list_upper = 401"
  by (simp_all add: long_list_def long_list_upper_def)

lemma take_plain:
  "take 397 (map plain_link [Suc 0..<400]) = map plain_link [Suc 0..<398]"
  "take 398 (map plain_link [Suc 0..<400]) = map plain_link [Suc 0..<399]"
  by (simp_all add: take_map)

lemma plain_inj: "plain_link m = plain_link n \<Longrightarrow> m = n"
proof -
  assume "plain_link m = plain_link n"
  then have "length (plain_link m) = length (plain_link n)" by simp
  then show ?thesis by (simp add: plain_link_def)
qed

lemma distinct_long_list: "distinct long_list"
proof -
  have "distinct (map plain_link [1..<400])"
    by (simp add: distinct_map inj_on_def plain_inj)
  moreover have "''https://a.test'' \<notin> set (map plain_link [1..<400])"
    "''https://a.test/product/pricing'' \<notin> set (map plain_link [1..<400])"
    using plain_not_high both_classes(1) by (auto simp: plain_link_def)
  ultimately show ?thesis by (simp add: long_list_def)
qed

text \<open>
  The claim as stated fails on 401 distinct links. The classes are no partition: a URL with
  a high and a medium keyword is in both, is sampled twice, and the last two low-priority
  links are dropped for it. And the keyword match is not on the URL as written: a URL that
  contains \<^verbatim>\<open>PRICING\<close>, and none of the keywords, is sampled first as high priority.
\<close>

theorem priority_sampling_counterexample:
  "distinct long_list \<and> length long_list = 401 \<and>
   is_high ''https://a.test/product/pricing'' \<and> is_medium ''https://a.test/product/pricing'' \<and>
   links_for_ai ''https://a.test'' long_list =
     [''https://a.test/product/pricing'', ''https://a.test/product/pricing'', ''https://a.test'']
       @ map plain_link [1..<398] \<and>
   length long_list_upper = 401 \<and>
   \<not> any_in [''pricing'', ''price'', ''plan'', ''buy'', ''subscribe'', ''order'', ''checkout'']
         ''https://a.test/PRICING'' \<and>
   links_for_ai ''https://a.test'' long_list_upper =
     [''https://a.test/PRICING'', ''https://a.test''] @ map plain_link [1..<399]"
proof -
  have h: "''https://a.test'' \<in> set long_list" "''https://a.test'' \<in> set long_list_upper"
    by (simp_all add: long_list_def long_list_upper_def)
  have a: "links_for_ai ''https://a.test'' long_list =
     [''https://a.test/product/pricing'', ''https://a.test/product/pricing'', ''https://a.test'']
       @ map plain_link [1..<398]"
    using h(1)
    by (simp add: links_for_ai_eq with_homepage_def length_long_list priority_sample_def
        long_list_def filter_plain both_classes home_low take_plain)
  have b: "links_for_ai ''https://a.test'' long_list_upper =
     [''https://a.test/PRICING'', ''https://a.test''] @ map plain_link [1..<399]"
    using h(2)
    by (simp add: links_for_ai_eq with_homepage_def length_long_list priority_sample_def
        long_list_upper_def filter_plain upper_high home_low take_plain)
  have c: "\<not> any_in [''pricing'', ''price'', ''plan'', ''buy'', ''subscribe'', ''order'', ''checkout'']
         ''https://a.test/PRICING''"
    by (simp add: any_in_def)
  from a b c distinct_long_list length_long_list both_classes show ?thesis by simp
qed

lemma ranker_from_try:
  "ai_identify_pricing_links env ai domain all_links =
     (case ai_try env ai domain (links_for_ai domain all_links) of
        Inl e \<Rightarrow> fallback_pricing_urls env domain (links_for_ai domain all_links)
      | Inr urls \<Rightarrow> Inr urls)"
  by (simp add: ai_identify_pricing_links_def Let_def)

lemma fold_raised:
  "fold (\<lambda>path r.
           case r of
             Inl e \<Rightarrow> Inl e
           | Inr fallback_urls \<Rightarrow>
               (case urljoin env domain path of
                  Inl e \<Rightarrow> Inl e
                | Inr url \<Rightarrow>
                    if fst (check_url_exists env url) \<and> url \<notin> set fallback_urls
                    then Inr (fallback_urls @ [url]) else Inr fallback_urls))
      paths (Inl e) = Inl e"
  by (induction paths) auto

lemma fold_common_paths:
  "(fold (\<lambda>path r.
           case r of
             Inl e \<Rightarrow> Inl e
           | Inr fallback_urls \<Rightarrow>
               (case urljoin env domain path of
                  Inl e \<Rightarrow> Inl e
                | Inr url \<Rightarrow>
                    if fst (check_url_exists env url) \<and> url \<notin> set fallback_urls
                    then Inr (fallback_urls @ [url]) else Inr fallback_urls))
      paths (Inr acc) = Inl e) = (join_all env domain paths = Inl e)"
proof (induction paths arbitrary: acc)
  case Nil
  then show ?case by simp
next
  case (Cons path paths)
  show ?case
  proof (cases "urljoin env domain path")
    case (Inl e')
    then show ?thesis by (simp add: fold_raised)
  next
    case (Inr url)
    then show ?thesis
      using Cons.IH[of "acc @ [url]"] Cons.IH[of acc]
      by (auto split: sum.splits)
  qed
qed

lemma fallback_raises:
  "(fallback_pricing_urls env domain links = Inl e) =
   (join_all env domain [''/pricing'', ''/price'', ''/plans'', ''/plan'', ''/subscription''] = Inl e)"
  unfolding fallback_pricing_urls_def Let_def by (rule fold_common_paths)

lemma join_all_raises:
  "join_all env domain paths = Inl e \<Longrightarrow> \<exists>path \<in> set paths. urljoin env domain path = Inl e"
  by (induction paths) (auto split: sum.splits)

lemma ranker_cases:
  "ai_identify_pricing_links env ai domain all_links
     = fallback_pricing_urls env domain (links_for_ai domain all_links) \<or>
   (\<exists>urls. ai_identify_pricing_links env ai domain all_links = Inr urls)"
  by (auto simp: ranker_from_try split: sum.splits)

text \<open>
  Claim C5, as the code has it. Let \<open>links_for_ai domain all_links\<close> be the list sent to
  the model. If the call raises, or the response has no brace-delimited span, or decoding
  the span raises, or the decoded \<^verbatim>\<open>pricing_urls\<close> cannot be iterated, the ranker does what
  the keyword fallback does for the domain and that list: it returns the list the fallback
  returns, or raises what the fallback raises. If the response decodes, the ranker returns
  the suggested URLs that pass the Existence Checker, whether or not there are any. The
  ranker raises only when the fallback does, and the fallback raises exactly when
  \<^verbatim>\<open>urljoin(domain, path)\<close> raises for one of the five common paths (the first exception
  wins); when \<^verbatim>\<open>urljoin\<close> returns for all five, the ranker returns a list.
\<close>

theorem ranker_fallback:
  "((\<exists>e. ai_rank ai domain (links_for_ai domain all_links) = Inl e) \<longrightarrow>
      ai_identify_pricing_links env ai domain all_links
        = fallback_pricing_urls env domain (links_for_ai domain all_links)) \<and>
   (\<forall>text. ai_rank ai domain (links_for_ai domain all_links) = Inr text \<and>
           (json_span text = None \<or>
            (\<exists>span. json_span text = Some span \<and> json_loads ai span = None)) \<longrightarrow>
      ai_identify_pricing_links env ai domain all_links
        = fallback_pricing_urls env domain (links_for_ai domain all_links)) \<and>
   (\<forall>text span result suggested.
      ai_rank ai domain (links_for_ai domain all_links) = Inr text \<and>
      json_span text = Some span \<and> json_loads ai span = Some result \<and>
      py_iter (case map_of result ''pricing_urls'' of None \<Rightarrow> JArr [] | Some v \<Rightarrow> v)
        = Some suggested \<longrightarrow>
      ai_identify_pricing_links env ai domain all_links = Inr (valid_urls env suggested)) \<and>
   (\<forall>text span result.
      ai_rank ai domain (links_for_ai domain all_links) = Inr text \<and>
      json_span text = Some span \<and> json_loads ai span = Some result \<and>
      py_iter (case map_of result ''pricing_urls'' of None \<Rightarrow> JArr [] | Some v \<Rightarrow> v) = None \<longrightarrow>
      ai_identify_pricing_links env ai domain all_links
        = fallback_pricing_urls env domain (links_for_ai domain all_links)) \<and>
   (\<forall>e. ai_identify_pricing_links env ai domain all_links = Inl e \<longrightarrow>
      fallback_pricing_urls env domain (links_for_ai domain all_links) = Inl e) \<and>
   (\<forall>e links. (fallback_pricing_urls env domain links = Inl e) =
      (join_all env domain [''/pricing'', ''/price'', ''/plans'', ''/plan'', ''/subscription'']
         = Inl e)) \<and>
   ((\<forall>path \<in> set [''/pricing'', ''/price'', ''/plans'', ''/plan'', ''/subscription''].
       \<exists>url. urljoin env domain path = Inr url) \<longrightarrow>
      (\<exists>urls. ai_identify_pricing_links env ai domain all_links = Inr urls))"
proof (intro conjI)
  show "(\<exists>e. ai_rank ai domain (links_for_ai domain all_links) = Inl e) \<longrightarrow>
      ai_identify_pricing_links env ai domain all_links
        = fallback_pricing_urls env domain (links_for_ai domain all_links)"
    by (auto simp: ranker_from_try ai_try_def)
next
  show "\<forall>text. ai_rank ai domain (links_for_ai domain all_links) = Inr text \<and>
           (json_span text = None \<or>
            (\<exists>span. json_span text = Some span \<and> json_loads ai span = None)) \<longrightarrow>
      ai_identify_pricing_links env ai domain all_links
        = fallback_pricing_urls env domain (links_for_ai domain all_links)"
    by (auto simp: ranker_from_try ai_try_def split: sum.splits)
next
  show "\<forall>text span result suggested.
      ai_rank ai domain (links_for_ai domain all_links) = Inr text \<and>
      json_span text = Some span \<and> json_loads ai span = Some result \<and>
      py_iter (case map_of result ''pricing_urls'' of None \<Rightarrow> JArr [] | Some v \<Rightarrow> v)
        = Some suggested \<longrightarrow>
      ai_identify_pricing_links env ai domain all_links = Inr (valid_urls env suggested)"
    by (auto simp: ranker_from_try ai_try_def)
next
  show "\<forall>text span result.
      ai_rank ai domain (links_for_ai domain all_links) = Inr text \<and>
      json_span text = Some span \<and> json_loads ai span = Some result \<and>
      py_iter (case map_of result ''pricing_urls'' of None \<Rightarrow> JArr [] | Some v \<Rightarrow> v) = None \<longrightarrow>
      ai_identify_pricing_links env ai domain all_links
        = fallback_pricing_urls env domain (links_for_ai domain all_links)"
    by (auto simp: ranker_from_try ai_try_def)
next
  show "\<forall>e. ai_identify_pricing_links env ai domain all_links = Inl e \<longrightarrow>
      fallback_pricing_urls env domain (links_for_ai domain all_links) = Inl e"
    using ranker_cases[of env ai domain all_links] by auto
next
  show "\<forall>e links. (fallback_pricing_urls env domain links = Inl e) =
      (join_all env domain [''/pricing'', ''/price'', ''/plans'', ''/plan'', ''/subscription'']
         = Inl e)"
    using fallback_raises by blast
next
  show "(\<forall>path \<in> set [''/pricing'', ''/price'', ''/plans'', ''/plan'', ''/subscription''].
       \<exists>url. urljoin env domain path = Inr url) \<longrightarrow>
      (\<exists>urls. ai_identify_pricing_links env ai domain all_links = Inr urls)"
  proof
    assume all: "\<forall>path \<in> set [''/pricing'', ''/price'', ''/plans'', ''/plan'', ''/subscription''].
       \<exists>url. urljoin env domain path = Inr url"
    have "\<not> (\<exists>e. fallback_pricing_urls env domain (links_for_ai domain all_links) = Inl e)"
    proof
      assume "\<exists>e. fallback_pricing_urls env domain (links_for_ai domain all_links) = Inl e"
      then obtain e where
        "join_all env domain [''/pricing'', ''/price'', ''/plans'', ''/plan'', ''/subscription'']
           = Inl e"
        using fallback_raises by blast
      from join_all_raises[OF this] all show False by force
    qed
    then obtain urls where
      "fallback_pricing_urls env domain (links_for_ai domain all_links) = Inr urls"
      by (cases "fallback_pricing_urls env domain (links_for_ai domain all_links)") auto
    with ranker_cases[of env ai domain all_links]
    show "\<exists>urls. ai_identify_pricing_links env ai domain all_links = Inr urls" by auto
  qed
qed

lemma example_exists:
  "fst (check_url_exists example_web ''https://acme.test/pricing'')"
  "fst (check_url_exists example_web ''https://acme.test'')"
  "\<not> fst (check_url_exists example_web ''https://acme.test/price'')"
  "\<not> fst (check_url_exists example_web ''https://acme.test/plans'')"
  "\<not> fst (check_url_exists example_web ''https://acme.test/plan'')"
  "\<not> fst (check_url_exists example_web ''https://acme.test/subscription'')"
  "\<not> fst (check_url_exists example_web ''https://[bad'')"
  by (simp_all add: check_url_exists_def example_web_def)

lemma example_links:
  "links_for_ai ''https://acme.test'' [''https://acme.test/pricing'', ''https://acme.test'']
     = [''https://acme.test/pricing'', ''https://acme.test'']"
  "links_for_ai ''https://[bad'' [] = [''https://[bad'']"
  by (simp_all add: links_for_ai_def)

lemma example_fallback:
  "fallback_pricing_urls example_web ''https://acme.test''
     [''https://acme.test/pricing'', ''https://acme.test'']
   = Inr [''https://acme.test/pricing'', ''https://acme.test'']"
proof -
  have k: "any_in [''pricing'', ''price'', ''plans'', ''plan'', ''subscribe'', ''buy'', ''order'']
             (py_lower ''https://acme.test/pricing'')"
     "\<not> any_in [''pricing'', ''price'', ''plans'', ''plan'', ''subscribe'', ''buy'', ''order'']
             (py_lower ''https://acme.test'')"
    by (simp_all add: any_in_def py_lower_def lower_char_def)
  have j: "urljoin example_web ''https://acme.test'' ''/pricing'' = Inr ''https://acme.test/pricing''"
    "urljoin example_web ''https://acme.test'' ''/price'' = Inr ''https://acme.test/price''"
    "urljoin example_web ''https://acme.test'' ''/plans'' = Inr ''https://acme.test/plans''"
    "urljoin example_web ''https://acme.test'' ''/plan'' = Inr ''https://acme.test/plan''"
    "urljoin example_web ''https://acme.test'' ''/subscription'' = Inr ''https://acme.test/subscription''"
    by (simp_all add: example_web_def)
  show ?thesis
    unfolding fallback_pricing_urls_def Let_def
    by (simp only: k j example_exists filter.simps fold.simps) (simp add: example_exists)
qed

lemma example_fallback_raises:
  "fallback_pricing_urls example_web ''https://[bad'' [''https://[bad'']
     = Inl (Exn ''Invalid IPv6 URL'')"
proof -
  have k: "\<not> any_in [''pricing'', ''price'', ''plans'', ''plan'', ''subscribe'', ''buy'', ''order'']
             (py_lower ''https://[bad'')"
    by (simp add: any_in_def py_lower_def lower_char_def)
  have j: "\<And>path. urljoin example_web ''https://[bad'' path = Inl (Exn ''Invalid IPv6 URL'')"
    by (simp add: example_web_def)
  show ?thesis
    unfolding fallback_pricing_urls_def Let_def
    by (simp add: k j example_exists)
qed

theorem ranker_fallback_witness:
  "ai_rank failing_llm ''https://acme.test''
     (links_for_ai ''https://acme.test'' [''https://acme.test/pricing'', ''https://acme.test''])
     = Inl (Exn ''timeout'') \<and>
   urljoin example_web ''https://acme.test'' ''/pricing'' = Inr ''https://acme.test/pricing'' \<and>
   urljoin example_web ''https://acme.test'' ''/price'' = Inr ''https://acme.test/price'' \<and>
   urljoin example_web ''https://acme.test'' ''/plans'' = Inr ''https://acme.test/plans'' \<and>
   urljoin example_web ''https://acme.test'' ''/plan'' = Inr ''https://acme.test/plan'' \<and>
   urljoin example_web ''https://acme.test'' ''/subscription''
     = Inr ''https://acme.test/subscription'' \<and>
   ai_identify_pricing_links example_web failing_llm ''https://acme.test''
     [''https://acme.test/pricing'', ''https://acme.test'']
     = Inr [''https://acme.test/pricing'', ''https://acme.test'']"
proof -
  have r: "ai_rank failing_llm ''https://acme.test''
     (links_for_ai ''https://acme.test'' [''https://acme.test/pricing'', ''https://acme.test''])
     = Inl (Exn ''timeout'')"
    by (simp add: failing_llm_def)
  have j: "urljoin example_web ''https://acme.test'' ''/pricing'' = Inr ''https://acme.test/pricing''"
    "urljoin example_web ''https://acme.test'' ''/price'' = Inr ''https://acme.test/price''"
    "urljoin example_web ''https://acme.test'' ''/plans'' = Inr ''https://acme.test/plans''"
    "urljoin example_web ''https://acme.test'' ''/plan'' = Inr ''https://acme.test/plan''"
    "urljoin example_web ''https://acme.test'' ''/subscription'' = Inr ''https://acme.test/subscription''"
    by (simp_all add: example_web_def)
  from ranker_fallback[of failing_llm "''https://acme.test''"
      "[''https://acme.test/pricing'', ''https://acme.test'']" example_web] r
  have "ai_identify_pricing_links example_web failing_llm ''https://acme.test''
     [''https://acme.test/pricing'', ''https://acme.test'']
     = fallback_pricing_urls example_web ''https://acme.test''
         (links_for_ai ''https://acme.test'' [''https://acme.test/pricing'', ''https://acme.test''])"
    by blast
  with r j show ?thesis by (simp only: example_links example_fallback)
qed

text \<open>
  The claim as stated fails twice. A model that answers with an empty \<^verbatim>\<open>pricing_urls\<close> list
  yields no usable URL, and the ranker returns the empty list although the fallback for the
  same inputs finds the pricing page and the homepage. And for the malformed domain
  \<^verbatim>\<open>https://[bad\<close> and a model whose call fails, the ranker does not return a list: it raises
  the \<^verbatim>\<open>ValueError\<close> of \<^verbatim>\<open>urljoin\<close>.
\<close>

theorem ranker_fallback_counterexample:
  "ai_rank empty_answer_llm ''https://acme.test''
     [''https://acme.test/pricing'', ''https://acme.test'']
     = Inr ''Sure: {\"pricing_urls\": []}'' \<and>
   ai_identify_pricing_links example_web empty_answer_llm ''https://acme.test''
     [''https://acme.test/pricing'', ''https://acme.test''] = Inr [] \<and>
   fallback_pricing_urls example_web ''https://acme.test''
     [''https://acme.test/pricing'', ''https://acme.test'']
     = Inr [''https://acme.test/pricing'', ''https://acme.test''] \<and>
   ai_rank failing_llm ''https://[bad'' (links_for_ai ''https://[bad'' []) = Inl (Exn ''timeout'') \<and>
   ai_identify_pricing_links example_web failing_llm ''https://[bad'' []
     = Inl (Exn ''Invalid IPv6 URL'')"
proof -
  have s: "json_span ''Sure: {\"pricing_urls\": []}'' = Some ''{\"pricing_urls\": []}''"
    by (simp add: json_span_def)
  have e: "ai_identify_pricing_links example_web empty_answer_llm ''https://acme.test''
     [''https://acme.test/pricing'', ''https://acme.test''] = Inr []"
    by (simp add: ranker_from_try example_links ai_try_def empty_answer_llm_def s valid_urls_def)
  have a: "ai_rank empty_answer_llm ''https://acme.test''
     [''https://acme.test/pricing'', ''https://acme.test'']
     = Inr ''Sure: {\"pricing_urls\": []}''"
    by (simp add: empty_answer_llm_def)
  have f: "ai_rank failing_llm ''https://[bad'' (links_for_ai ''https://[bad'' [])
     = Inl (Exn ''timeout'')"
    by (simp add: failing_llm_def)
  have b: "ai_identify_pricing_links example_web failing_llm ''https://[bad'' []
     = Inl (Exn ''Invalid IPv6 URL'')"
    by (simp add: ranker_from_try example_links ai_try_def failing_llm_def example_fallback_raises)
  from a e f b example_fallback show ?thesis by simp
qed
end
